theory Spec2Isabelle
  imports Complex_Main "HOL-Library.Char_ord" "HOL-Library.List_Lexorder" "HOL-Library.Log_Nat"
begin

section \<open>Data model (src/types.ts)\<close>

text \<open>
  The interfaces of \<^verbatim>\<open>types.ts\<close> as records. A field called \<^verbatim>\<open>id\<close> in the source is
  \<open>idH\<close> (Habit) or \<open>idW\<close> (MicroWin) here, since \<open>id\<close> is the identity function of HOL;
  the fields of the later interfaces carry a letter where the source reuses a name
  (\<^verbatim>\<open>date\<close>, \<^verbatim>\<open>completed\<close>, \<^verbatim>\<open>text\<close>).
\<close>

record Habit =
  idH :: string
  name :: string
  objective :: string
  minObjective :: string
  createdAt :: string

record HabitLog =
  date :: string
  habitId :: string
  completed :: bool
  partial :: bool

record MicroWin =
  idW :: string
  textW :: string

record MicroWinLog =
  dateW :: string
  winId :: string
  completedW :: bool

record DailyTask =
  idT :: string
  textT :: string
  completedT :: bool
  notesT :: "string option"

record DayPlan =
  dateP :: string
  tasks :: "DailyTask list"

record JournalEntry =
  dateJ :: string
  content :: string

text \<open>The six \<^verbatim>\<open>useState\<close> collections of \<^verbatim>\<open>App\<close> (src/App.tsx, lines 52-57).\<close>

record AppState =
  habits :: "Habit list"
  logs :: "HabitLog list"
  microWins :: "MicroWin list"
  microWinLogs :: "MicroWinLog list"
  dayPlans :: "DayPlan list"
  journalEntries :: "JournalEntry list"

section \<open>toggleHabit (src/App.tsx, lines 125-144)\<close>

datatype toggle_type = FULL | PARTIAL | TOGGLE

text \<open>
  The predicate of the source's \<^verbatim>\<open>find\<close> and (negated) \<^verbatim>\<open>filter\<close> calls:
  \<^verbatim>\<open>l.habitId === habitId && l.date === date\<close>.
\<close>

definition is_key :: "string \<Rightarrow> string \<Rightarrow> HabitLog \<Rightarrow> bool" where
  "is_key hId d l \<longleftrightarrow> habitId l = hId \<and> date l = d"

text \<open>
  \<^verbatim>\<open>existing?.completed\<close> and \<^verbatim>\<open>existing?.partial\<close>: \<^verbatim>\<open>undefined\<close>, hence falsy, when
  \<^verbatim>\<open>find\<close> found nothing.
\<close>

definition opt_flag :: "(HabitLog \<Rightarrow> bool) \<Rightarrow> HabitLog option \<Rightarrow> bool" where
  "opt_flag f existing = (case existing of None \<Rightarrow> False | Some l \<Rightarrow> f l)"

definition toggleHabit :: "string \<Rightarrow> string \<Rightarrow> toggle_type \<Rightarrow> HabitLog list \<Rightarrow> HabitLog list" where
  "toggleHabit hId d type prevLogs =
     (let existing = find (is_key hId d) prevLogs in
      case type of
        FULL \<Rightarrow>
          if opt_flag completed existing
          then filter (\<lambda>l. \<not> is_key hId d l) prevLogs
          else (let clean = filter (\<lambda>l. \<not> is_key hId d l) prevLogs
                in clean @ [\<lparr>date = d, habitId = hId, completed = True, partial = False\<rparr>])
      | PARTIAL \<Rightarrow>
          if opt_flag partial existing
          then filter (\<lambda>l. \<not> is_key hId d l) prevLogs
          else (let clean = filter (\<lambda>l. \<not> is_key hId d l) prevLogs
                in clean @ [\<lparr>date = d, habitId = hId, completed = False, partial = True\<rparr>])
      | TOGGLE \<Rightarrow> prevLogs)"

subsection \<open>The invariants of the HabitLog collection\<close>

definition log_key :: "HabitLog \<Rightarrow> string \<times> string" where
  "log_key l = (habitId l, date l)"

definition one_log_per_key :: "HabitLog list \<Rightarrow> bool" where
  "one_log_per_key ls \<longleftrightarrow> distinct (map log_key ls)"

definition flags_exclusive :: "HabitLog list \<Rightarrow> bool" where
  "flags_exclusive ls \<longleftrightarrow> list_all (\<lambda>l. \<not> (completed l \<and> partial l)) ls"

text \<open>The log state of one key, as every reader of the collection obtains it: the first match.\<close>

definition key_state :: "string \<Rightarrow> string \<Rightarrow> HabitLog list \<Rightarrow> HabitLog option" where
  "key_state hId d ls = find (is_key hId d) ls"

definition logs_of_key :: "string \<Rightarrow> string \<Rightarrow> HabitLog list \<Rightarrow> HabitLog list" where
  "logs_of_key hId d ls = filter (is_key hId d) ls"

section \<open>deleteHabit (src/App.tsx, lines 112-115)\<close>

definition deleteHabit :: "string \<Rightarrow> AppState \<Rightarrow> AppState" where
  "deleteHabit i s =
     s\<lparr>habits := filter (\<lambda>h. idH h \<noteq> i) (habits s),
       logs := filter (\<lambda>l. habitId l \<noteq> i) (logs s)\<rparr>"

section \<open>reorderHabits and reorderMicroWins (src/App.tsx, lines 117-123 and 157-163)\<close>

text \<open>
  \<^verbatim>\<open>Array.prototype.splice(start, deleteCount, ...items)\<close> on integer arguments: a negative
  \<^verbatim>\<open>start\<close> counts from the end of the array, \<^verbatim>\<open>start\<close> and \<^verbatim>\<open>deleteCount\<close> are clamped
  to the array. The result is the array of removed elements and the array after the call.
\<close>

definition splice :: "int \<Rightarrow> int \<Rightarrow> 'a list \<Rightarrow> 'a list \<Rightarrow> 'a list \<times> 'a list" where
  "splice start deleteCount items xs =
     (let len = int (length xs);
          actualStart = (if start < 0 then max (len + start) 0 else min start len);
          actualDeleteCount = min (max deleteCount 0) (len - actualStart);
          s = nat actualStart;
          k = nat actualDeleteCount
      in (take k (drop s xs), take s xs @ items @ drop (s + k) xs))"

text \<open>
  A slot of a JavaScript array: \<open>Some x\<close> for a value, \<open>None\<close> for \<^verbatim>\<open>undefined\<close>. The
  destructuring \<^verbatim>\<open>const [movedItem] = ...\<close> reads slot 0 of the removed elements, which is
  \<^verbatim>\<open>undefined\<close> when nothing was removed.
\<close>

definition first_slot :: "'a option list \<Rightarrow> 'a option" where
  "first_slot removed = (case removed of [] \<Rightarrow> None | x # _ \<Rightarrow> x)"

definition reorderHabits :: "int \<Rightarrow> int \<Rightarrow> 'a option list \<Rightarrow> 'a option list" where
  "reorderHabits fromIndex toIndex hs =
     (if toIndex < 0 \<or> toIndex \<ge> int (length hs) then hs
      else (let newHabits = hs;
                (removed, newHabits1) = splice fromIndex 1 [] newHabits;
                movedItem = first_slot removed;
                (removed2, newHabits2) = splice toIndex 0 [movedItem] newHabits1
            in newHabits2))"

definition reorderMicroWins :: "int \<Rightarrow> int \<Rightarrow> 'a option list \<Rightarrow> 'a option list" where
  "reorderMicroWins fromIndex toIndex ws =
     (if toIndex < 0 \<or> toIndex \<ge> int (length ws) then ws
      else (let newWins = ws;
                (removed, newWins1) = splice fromIndex 1 [] newWins;
                moved = first_slot removed;
                (removed2, newWins2) = splice toIndex 0 [moved] newWins1
            in newWins2))"

text \<open>The specification's wording of a move: remove at one index, reinsert at another.\<close>

definition remove_at :: "nat \<Rightarrow> 'a list \<Rightarrow> 'a list" where
  "remove_at i xs = take i xs @ drop (Suc i) xs"

definition insert_at :: "nat \<Rightarrow> 'a \<Rightarrow> 'a list \<Rightarrow> 'a list" where
  "insert_at i x xs = take i xs @ [x] @ drop i xs"

section \<open>handleImportData (src/App.tsx, lines 212-222)\<close>

text \<open>
  The parsed backup document. A field is \<open>None\<close> when the test \<^verbatim>\<open>if (data.field)\<close> of the
  source fails: the field is absent from the document (or holds a falsy value such as
  \<^verbatim>\<open>null\<close>). An array, also an empty one, is truthy.
\<close>

record BackupData =
  habitsB :: "Habit list option"
  logsB :: "HabitLog list option"
  microWinsB :: "MicroWin list option"
  microWinLogsB :: "MicroWinLog list option"
  dayPlansB :: "DayPlan list option"
  journalEntriesB :: "JournalEntry list option"
  exportDate :: "string option"

text \<open>
  The answer to the \<^verbatim>\<open>confirm\<close> dialog is an argument; the result is the next state and
  the \<^verbatim>\<open>alert\<close> messages shown.
\<close>

definition handleImportData :: "bool \<Rightarrow> BackupData \<Rightarrow> AppState \<Rightarrow> AppState \<times> string list" where
  "handleImportData confirmed data s =
     (if confirmed then
        (let s1 = (case habitsB data of Some v \<Rightarrow> s\<lparr>habits := v\<rparr> | None \<Rightarrow> s);
             s2 = (case logsB data of Some v \<Rightarrow> s1\<lparr>logs := v\<rparr> | None \<Rightarrow> s1);
             s3 = (case microWinsB data of Some v \<Rightarrow> s2\<lparr>microWins := v\<rparr> | None \<Rightarrow> s2);
             s4 = (case microWinLogsB data of Some v \<Rightarrow> s3\<lparr>microWinLogs := v\<rparr> | None \<Rightarrow> s3);
             s5 = (case dayPlansB data of Some v \<Rightarrow> s4\<lparr>dayPlans := v\<rparr> | None \<Rightarrow> s4);
             s6 = (case journalEntriesB data of Some v \<Rightarrow> s5\<lparr>journalEntries := v\<rparr> | None \<Rightarrow> s5)
         in (s6, [''Data restored successfully!'']))
      else (s, []))"

section \<open>analyzeProgress (src/obsidian-track/services/geminiService.ts, lines 4-35)\<close>

record Digest =
  totalHabits :: nat
  recentActivity :: "HabitLog list"
  habitsDef :: "(string \<times> string) list"

text \<open>
  One call of \<^verbatim>\<open>ai.models.generateContent\<close>: the key the client was built with, the model
  name, and the two values interpolated into the fixed prompt text.
\<close>

record GenRequest =
  clientKey :: string
  modelName :: string
  currentDate :: string
  dataSummary :: Digest

text \<open>
  The text-generation service is the argument \<open>generateContent\<close>: \<open>Some t\<close> is a response
  with text \<open>t\<close>, \<open>None\<close> a call that throws. \<open>today\<close> and \<open>weekAgo\<close> are the two dates the
  source reads from the clock (\<^verbatim>\<open>toISOString().split('T')[0]\<close> of now and of seven days
  before). The credential is \<open>None\<close> when the caller passes \<^verbatim>\<open>undefined\<close>. The result is
  the returned message and the requests issued, in order.
\<close>

definition analyzeProgress ::
  "(GenRequest \<Rightarrow> string option) \<Rightarrow> string \<Rightarrow> string \<Rightarrow> string option \<Rightarrow> Habit list \<Rightarrow> HabitLog list
     \<Rightarrow> string \<times> GenRequest list" where
  "analyzeProgress generateContent today weekAgo apiKey hs ls =
     (case apiKey of
        None \<Rightarrow> (''AI Configuration Missing. Please add your Google Gemini API Key in the Habits tab settings.'', [])
      | Some k \<Rightarrow>
          if k = [] then
            (''AI Configuration Missing. Please add your Google Gemini API Key in the Habits tab settings.'', [])
          else
            (let summary = \<lparr>totalHabits = length hs,
                            recentActivity = filter (\<lambda>l. date l \<ge> weekAgo) ls,
                            habitsDef = map (\<lambda>h. (name h, objective h)) hs\<rparr>;
                 req = \<lparr>clientKey = k, modelName = ''gemini-2.5-flash'',
                        currentDate = today, dataSummary = summary\<rparr>
             in case generateContent req of
                  Some text \<Rightarrow> (text, [req])
                | None \<Rightarrow> (''Error connecting to AI. Please check your API Key.'', [req])))"

section \<open>Dates and numbers of the statistics\<close>

text \<open>
  A calendar day (a \<^verbatim>\<open>Date\<close> at the local start of a day) is the number of days since
  1970-01-01, so \<^verbatim>\<open>subDays(d, i)\<close> is \<open>d - i\<close>, \<^verbatim>\<open>subWeeks(d, 1)\<close> is \<open>d - 7\<close> and two
  days compare as their numbers do. The functions of the date library that the statistics
  call are the fields of a record, so that every fact below holds whatever they return:
  \<^item> \<open>format_ymd\<close> is \<^verbatim>\<open>format(d, 'yyyy-MM-dd')\<close>, \<open>format_MMM_dd\<close> is \<^verbatim>\<open>format(d, 'MMM dd')\<close>,
    \<open>format_MMM_do\<close> is \<^verbatim>\<open>format(d, 'MMM do')\<close>;
  \<^item> \<open>parseLocalDate s\<close> is \<^verbatim>\<open>startOfDay(new Date(cy, cm - 1, cd))\<close> for
    \<^verbatim>\<open>[cy, cm, cd] = s.split('-').map(Number)\<close>, \<open>None\<close> for an invalid date (every
    comparison with it is false).
\<close>

record DateLib =
  format_ymd :: "int \<Rightarrow> string"
  format_MMM_dd :: "int \<Rightarrow> string"
  format_MMM_do :: "int \<Rightarrow> string"
  parseLocalDate :: "string \<Rightarrow> int option"

subsection \<open>JavaScript numbers\<close>

text \<open>
  A JavaScript number is a binary64 floating-point value. The statistics compute with
  counts, which are held exactly, and round twice: in the division by the number of
  habits (or by 30) and in the multiplication by 100. A finite number is modelled by an
  exact fraction, a pair of a numerator and a positive denominator; the result of an
  operation is the nearest binary64 value of the exact result, a tie going to the even
  significand. The exponent range is not modelled: the numbers here are quotients of
  array lengths (below \<open>2 ^ 32\<close>), far from overflow and underflow, and they are never
  negative.

  \<open>round_half_even a b\<close> is the integer nearest to \<open>a / b\<close>; \<open>scale_num\<close> and \<open>scale_den\<close>
  give \<open>a / b\<close> divided by \<open>2 ^ e\<close> as a fraction again; \<open>binade a b\<close> is the exponent \<open>e\<close>
  for which that quotient, the significand, lies between \<open>2 ^ 52\<close> and \<open>2 ^ 53\<close>.
\<close>

definition round_half_even :: "int \<Rightarrow> int \<Rightarrow> int" where
  "round_half_even a b =
     (if 2 * (a mod b) < b then a div b
      else if b < 2 * (a mod b) then a div b + 1
      else if even (a div b) then a div b else a div b + 1)"

definition scale_num :: "int \<Rightarrow> int \<Rightarrow> int" where
  "scale_num a e = (if e < 0 then a * 2 ^ nat (- e) else a)"

definition scale_den :: "int \<Rightarrow> int \<Rightarrow> int" where
  "scale_den b e = (if e < 0 then b else b * 2 ^ nat e)"

definition binade_from :: "int \<Rightarrow> int \<Rightarrow> int \<Rightarrow> int" where
  "binade_from e0 a b = (if scale_num a e0 div scale_den b e0 < 2 ^ 53 then e0 else e0 + 1)"

definition binade :: "int \<Rightarrow> int \<Rightarrow> int" where
  "binade a b = binade_from (bitlen a - bitlen b - 53) a b"

definition round_at :: "int \<Rightarrow> int \<Rightarrow> int \<Rightarrow> int \<times> int" where
  "round_at e a b =
     (scale_num (round_half_even (scale_num a e) (scale_den b e)) (- e), scale_den 1 (- e))"

definition nearest_double :: "int \<Rightarrow> int \<Rightarrow> int \<times> int" where
  "nearest_double a b = (if a = 0 then (0, 1) else round_at (binade a b) a b)"

text \<open>
  \<open>num n\<close> is the count \<open>n\<close> as a number, \<open>fdiv\<close> and \<open>fmul\<close> are the operators \<^verbatim>\<open>/\<close>
  and \<^verbatim>\<open>*\<close>, and \<open>Math_round\<close> is \<^verbatim>\<open>Math.round\<close>: the floor of \<open>x + 1 / 2\<close>, taken on the
  exact value of the number \<open>x\<close>.
\<close>

definition num :: "nat \<Rightarrow> int \<times> int" where
  "num n = (int n, 1)"

definition fdiv :: "int \<times> int \<Rightarrow> int \<times> int \<Rightarrow> int \<times> int" where
  "fdiv x y = nearest_double (fst x * snd y) (snd x * fst y)"

definition fmul :: "int \<times> int \<Rightarrow> int \<times> int \<Rightarrow> int \<times> int" where
  "fmul x y = nearest_double (fst x * fst y) (snd x * snd y)"

definition Math_round :: "int \<times> int \<Rightarrow> int" where
  "Math_round x = (2 * fst x + snd x) div (2 * snd x)"

text \<open>
  \<open>halves k\<close> is \<open>k / 2\<close>, held exactly: the value of
  \<^verbatim>\<open>(fullCount * 1) + (partialCount * 0.5)\<close> is \<open>(2 * fullCount + partialCount) / 2\<close>, and
  each of its three operations is exact on counts.
\<close>

definition halves :: "nat \<Rightarrow> int \<times> int" where
  "halves k = (int k, 2)"

text \<open>
  The rounding of the specification's formulas, on exact reals: the nearest integer, a
  tie going up. A real is halfway when it lies exactly between two integers. A score
  agrees with a real up to a tie when it is the rounding of the real, except that at a
  real that is halfway it may also be the integer below.
\<close>

definition js_round :: "real \<Rightarrow> int" where
  "js_round x = \<lfloor>x + 1 / 2\<rfloor>"

definition halfway :: "real \<Rightarrow> bool" where
  "halfway x \<longleftrightarrow> frac x = 1 / 2"

definition agrees_up_to_tie :: "int \<Rightarrow> real \<Rightarrow> bool" where
  "agrees_up_to_tie m x \<longleftrightarrow>
     (\<not> halfway x \<longrightarrow> m = js_round x) \<and> (m = js_round x \<or> m = js_round x - 1)"

subsection \<open>A date library to run the statistics on\<close>

text \<open>
  The proleptic Gregorian calendar by era arithmetic (an era is 400 years, 146097 days).
  The formats are those of the library for years 0000 to 9999; the parser is the library's
  on three components of decimal digits (blanks around them allowed) with a year from 100
  and a month from 1 to 12.
\<close>

definition civil_of_mp :: "int \<Rightarrow> int \<Rightarrow> int \<Rightarrow> int \<times> int \<times> int" where
  "civil_of_mp y doy mp =
     (if mp < 10 then y else y + 1, if mp < 10 then mp + 3 else mp - 9,
      doy - (153 * mp + 2) div 5 + 1)"

definition civil_of_doy :: "int \<Rightarrow> int \<Rightarrow> int \<times> int \<times> int" where
  "civil_of_doy y doy = civil_of_mp y doy ((5 * doy + 2) div 153)"

definition civil_of_yoe :: "int \<Rightarrow> int \<Rightarrow> int \<Rightarrow> int \<times> int \<times> int" where
  "civil_of_yoe era doe yoe =
     civil_of_doy (yoe + era * 400) (doe - (365 * yoe + yoe div 4 - yoe div 100))"

definition civil_of_doe :: "int \<Rightarrow> int \<Rightarrow> int \<times> int \<times> int" where
  "civil_of_doe era doe =
     civil_of_yoe era doe ((doe - doe div 1460 + doe div 36524 - doe div 146096) div 365)"

definition civil_from_days :: "int \<Rightarrow> int \<times> int \<times> int" where
  "civil_from_days z = civil_of_doe ((z + 719468) div 146097) ((z + 719468) mod 146097)"

definition days_of_shifted :: "int \<Rightarrow> int \<Rightarrow> int \<Rightarrow> int" where
  "days_of_shifted y mp d =
     (y div 400) * 146097 + (y mod 400) * 365 + (y mod 400) div 4 - (y mod 400) div 100
       + (153 * mp + 2) div 5 + d - 1 - 719468"

definition days_from_civil :: "int \<Rightarrow> int \<Rightarrow> int \<Rightarrow> int" where
  "days_from_civil y m d =
     days_of_shifted (if m \<le> 2 then y - 1 else y) (if m > 2 then m - 3 else m + 9) d"

definition digit :: "int \<Rightarrow> char" where
  "digit n = ''0123456789'' ! nat (n mod 10)"

definition pad2 :: "int \<Rightarrow> string" where
  "pad2 n = [digit (n div 10), digit n]"

definition pad4 :: "int \<Rightarrow> string" where
  "pad4 n = [digit (n div 1000), digit (n div 100), digit (n div 10), digit n]"

definition month_abbr :: "int \<Rightarrow> string" where
  "month_abbr m = [''Jan'', ''Feb'', ''Mar'', ''Apr'', ''May'', ''Jun'',
                   ''Jul'', ''Aug'', ''Sep'', ''Oct'', ''Nov'', ''Dec''] ! nat (m - 1)"

definition ordinal :: "int \<Rightarrow> string" where
  "ordinal d =
     (if d < 10 then [digit d] else pad2 d) @
     (if d mod 100 \<in> {11, 12, 13} then ''th''
      else if d mod 10 = 1 then ''st''
      else if d mod 10 = 2 then ''nd''
      else if d mod 10 = 3 then ''rd'' else ''th'')"

fun split_on :: "char \<Rightarrow> string \<Rightarrow> string list" where
  "split_on c [] = [[]]"
| "split_on c (x # xs) =
     (if x = c then [] # split_on c xs
      else (case split_on c xs of [] \<Rightarrow> [[x]] | w # ws \<Rightarrow> (x # w) # ws))"

definition digit_value :: "char \<Rightarrow> int option" where
  "digit_value c = map_of (zip ''0123456789'' [0, 1, 2, 3, 4, 5, 6, 7, 8, 9]) c"

text \<open>
  \<^verbatim>\<open>Number\<close> on a string of decimal digits, after the blanks around it are dropped
  (space, tab, line feed, vertical tab, form feed, carriage return); the empty string
  is 0. Other spellings of a number (a sign, a fraction, an exponent, a radix prefix) are
  outside this model of the library.
\<close>

definition js_blank :: "char \<Rightarrow> bool" where
  "js_blank c \<longleftrightarrow> c \<in> set [CHR '' '', CHR 0x09, CHR 0x0A, CHR 0x0B, CHR 0x0C, CHR 0x0D]"

definition trim :: "string \<Rightarrow> string" where
  "trim s = rev (dropWhile js_blank (rev (dropWhile js_blank s)))"

fun decimal :: "int \<Rightarrow> string \<Rightarrow> int option" where
  "decimal acc [] = Some acc"
| "decimal acc (c # cs) =
     (case digit_value c of None \<Rightarrow> None | Some v \<Rightarrow> decimal (10 * acc + v) cs)"

definition format_yyyy_MM_dd :: "int \<Rightarrow> string" where
  "format_yyyy_MM_dd z = (case civil_from_days z of (y, m, d) \<Rightarrow> pad4 y @ ''-'' @ pad2 m @ ''-'' @ pad2 d)"

definition format_MMM_dd_impl :: "int \<Rightarrow> string" where
  "format_MMM_dd_impl z = (case civil_from_days z of (y, m, d) \<Rightarrow> month_abbr m @ '' '' @ pad2 d)"

definition format_MMM_do_impl :: "int \<Rightarrow> string" where
  "format_MMM_do_impl z = (case civil_from_days z of (y, m, d) \<Rightarrow> month_abbr m @ '' '' @ ordinal d)"

definition new_Date_of_parts :: "string \<Rightarrow> int option" where
  "new_Date_of_parts s =
     (case map (\<lambda>part. decimal 0 (trim part)) (split_on CHR ''-'' s) of
        Some cy # Some cm # Some cd # rest \<Rightarrow> Some (days_from_civil cy cm cd)
      | _ \<Rightarrow> None)"

definition dateFns :: DateLib where
  "dateFns =
     \<lparr>format_ymd = format_yyyy_MM_dd,
      format_MMM_dd = format_MMM_dd_impl,
      format_MMM_do = format_MMM_do_impl,
      parseLocalDate = new_Date_of_parts\<rparr>"

section \<open>chartData (src/components/Journal.tsx, lines 234-269, and src/unnamed/part_002, lines 90-126)\<close>

record ChartRow =
  dateLabel :: string
  Full :: nat
  Partial :: nat
  LastWeek :: nat
  Momentum :: int
  rawDate :: string

text \<open>
  The loop runs \<open>i\<close> from 29 down to 0 and pushes one row per day. \<^verbatim>\<open>habits.length || 1\<close>
  is 1 for an empty habit list.
\<close>

definition chartData :: "DateLib \<Rightarrow> Habit list \<Rightarrow> HabitLog list \<Rightarrow> int \<Rightarrow> ChartRow list" where
  "chartData lib hs ls stableToday =
     map (\<lambda>i.
        let d = stableToday - int i;
            prevWeekD = d - 7;
            dStr = format_ymd lib d;
            prevWeekDStr = format_ymd lib prevWeekD;
            dayLogs = filter (\<lambda>l. date l = dStr) ls;
            fullCount = length (filter completed dayLogs);
            partialCount = length (filter partial dayLogs);
            prevLogs = filter (\<lambda>l. date l = prevWeekDStr) ls;
            prevWeekCount = length (filter (\<lambda>l. completed l \<or> partial l) prevLogs);
            totalHabits = (if length hs = 0 then 1 else length hs);
            weightedScore = (fullCount * 1) + (partialCount * 1);
            score = Math_round (fmul (fdiv (num weightedScore) (num totalHabits)) (num 100))
        in \<lparr>dateLabel = format_MMM_dd lib d, Full = fullCount, Partial = partialCount,
            LastWeek = prevWeekCount, Momentum = score, rawDate = dStr\<rparr>)
      (rev [0..<30])"

text \<open>
  The Dashboard of src/unnamed/part_002 has the same loop over \<^verbatim>\<open>currentTime\<close>, with the
  score \<^verbatim>\<open>Math.round(((fullCount * 1) + (partialCount * 0.5)) / totalHabits * 100)\<close>.
\<close>

definition chartData_part002 :: "DateLib \<Rightarrow> Habit list \<Rightarrow> HabitLog list \<Rightarrow> int \<Rightarrow> ChartRow list" where
  "chartData_part002 lib hs ls currentTime =
     map (\<lambda>i.
        let d = currentTime - int i;
            prevWeekD = d - 7;
            dStr = format_ymd lib d;
            prevWeekDStr = format_ymd lib prevWeekD;
            dayLogs = filter (\<lambda>l. date l = dStr) ls;
            fullCount = length (filter completed dayLogs);
            partialCount = length (filter partial dayLogs);
            prevLogs = filter (\<lambda>l. date l = prevWeekDStr) ls;
            prevWeekCount = length (filter (\<lambda>l. completed l \<or> partial l) prevLogs);
            totalHabits = (if length hs = 0 then 1 else length hs);
            weighted = halves (2 * (fullCount * 1) + partialCount);
            score = Math_round (fmul (fdiv weighted (num totalHabits)) (num 100))
        in \<lparr>dateLabel = format_MMM_dd lib d, Full = fullCount, Partial = partialCount,
            LastWeek = prevWeekCount, Momentum = score, rawDate = dStr\<rparr>)
      (rev [0..<30])"

subsection \<open>The Momentum score in the specification's words\<close>

definition fullCount_on :: "DateLib \<Rightarrow> HabitLog list \<Rightarrow> int \<Rightarrow> nat" where
  "fullCount_on lib ls d = length (filter (\<lambda>l. date l = format_ymd lib d \<and> completed l) ls)"

definition partialCount_on :: "DateLib \<Rightarrow> HabitLog list \<Rightarrow> int \<Rightarrow> nat" where
  "partialCount_on lib ls d = length (filter (\<lambda>l. date l = format_ymd lib d \<and> partial l) ls)"

definition percent_equal_weight :: "DateLib \<Rightarrow> Habit list \<Rightarrow> HabitLog list \<Rightarrow> int \<Rightarrow> real" where
  "percent_equal_weight lib hs ls d =
     100 * of_nat (fullCount_on lib ls d + partialCount_on lib ls d) / of_nat (max 1 (length hs))"

definition percent_half_weight :: "DateLib \<Rightarrow> Habit list \<Rightarrow> HabitLog list \<Rightarrow> int \<Rightarrow> real" where
  "percent_half_weight lib hs ls d =
     100 * (of_nat (fullCount_on lib ls d) + of_nat (partialCount_on lib ls d) / 2)
       / of_nat (max 1 (length hs))"

definition momentum_equal_weight :: "DateLib \<Rightarrow> Habit list \<Rightarrow> HabitLog list \<Rightarrow> int \<Rightarrow> int" where
  "momentum_equal_weight lib hs ls d = js_round (percent_equal_weight lib hs ls d)"

text \<open>Sample data: habit number \<open>i\<close>, and a full or a partial log of it on a given date.\<close>

definition sample_habit :: "nat \<Rightarrow> Habit" where
  "sample_habit i =
     \<lparr>idH = pad2 (int i), name = ''Habit'', objective = ''Full'', minObjective = ''Min'',
      createdAt = ''2024-02-20T09:30:00.000Z''\<rparr>"

definition sample_full_log :: "string \<Rightarrow> nat \<Rightarrow> HabitLog" where
  "sample_full_log dStr i = \<lparr>date = dStr, habitId = pad2 (int i), completed = True, partial = False\<rparr>"

section \<open>heatmapData and heatmapPercentage (src/components/Journal.tsx, lines 271-328)\<close>

record HeatCell =
  dateC :: string
  score :: nat
  displayDate :: string







subsection \<open>The consistency percentage in the specification's words\<close>






section \<open>Facts about toggleHabit\<close>

lemma is_key_log_key: "is_key hId d l \<longleftrightarrow> log_key l = (hId, d)"
  by (auto simp: is_key_def log_key_def)

lemma find_filter_neg_None: "find P (filter (\<lambda>x. \<not> P x) xs) = None"
  by (induction xs) auto

lemma find_append: "find P (xs @ ys) = (case find P xs of None \<Rightarrow> find P ys | Some x \<Rightarrow> Some x)"
  by (induction xs) auto

lemma filter_filter_neg_Nil: "filter P (filter (\<lambda>x. \<not> P x) xs) = []"
  by (induction xs) auto

lemma distinct_map_filter_keep: "distinct (map f xs) \<Longrightarrow> distinct (map f (filter P xs))"
  by (induction xs) auto

lemma one_log_per_key_clean:
  "one_log_per_key ls \<Longrightarrow> one_log_per_key (filter (\<lambda>l. \<not> is_key hId d l) ls)"
  unfolding one_log_per_key_def by (rule distinct_map_filter_keep)

lemma one_log_per_key_snoc:
  assumes "one_log_per_key ls"
  shows "one_log_per_key (filter (\<lambda>l. \<not> is_key hId d l) ls
           @ [\<lparr>date = d, habitId = hId, completed = c, partial = p\<rparr>])"
proof -
  have "(hId, d) \<notin> log_key ` set (filter (\<lambda>l. \<not> is_key hId d l) ls)"
    by (auto simp: is_key_log_key)
  moreover have "log_key \<lparr>date = d, habitId = hId, completed = c, partial = p\<rparr> = (hId, d)"
    by (simp add: log_key_def)
  ultimately show ?thesis
    using one_log_per_key_clean [OF assms, of hId d]
    by (simp add: one_log_per_key_def)
qed

lemma flags_exclusive_clean:
  "flags_exclusive ls \<Longrightarrow> flags_exclusive (filter (\<lambda>l. \<not> is_key hId d l) ls)"
  by (simp add: flags_exclusive_def list_all_iff)

lemma flags_exclusive_snoc:
  "flags_exclusive ls \<Longrightarrow> \<not> (c \<and> p) \<Longrightarrow>
   flags_exclusive (filter (\<lambda>l. \<not> is_key hId d l) ls
      @ [\<lparr>date = d, habitId = hId, completed = c, partial = p\<rparr>])"
  by (simp add: flags_exclusive_def list_all_iff)

text \<open>The four shapes a FULL or PARTIAL toggle can take.\<close>

lemma toggleHabit_FULL_on:
  "opt_flag completed (find (is_key hId d) ls) \<Longrightarrow>
   toggleHabit hId d FULL ls = filter (\<lambda>l. \<not> is_key hId d l) ls"
  by (simp add: toggleHabit_def)

lemma toggleHabit_FULL_off:
  "\<not> opt_flag completed (find (is_key hId d) ls) \<Longrightarrow>
   toggleHabit hId d FULL ls = filter (\<lambda>l. \<not> is_key hId d l) ls
      @ [\<lparr>date = d, habitId = hId, completed = True, partial = False\<rparr>]"
  by (simp add: toggleHabit_def)

lemma toggleHabit_PARTIAL_on:
  "opt_flag partial (find (is_key hId d) ls) \<Longrightarrow>
   toggleHabit hId d PARTIAL ls = filter (\<lambda>l. \<not> is_key hId d l) ls"
  by (simp add: toggleHabit_def)

lemma toggleHabit_PARTIAL_off:
  "\<not> opt_flag partial (find (is_key hId d) ls) \<Longrightarrow>
   toggleHabit hId d PARTIAL ls = filter (\<lambda>l. \<not> is_key hId d l) ls
      @ [\<lparr>date = d, habitId = hId, completed = False, partial = True\<rparr>]"
  by (simp add: toggleHabit_def)

lemma toggleHabit_TOGGLE: "toggleHabit hId d TOGGLE ls = ls"
  by (simp add: toggleHabit_def)

text \<open>
  Claim C1. If the log list has at most one log per (habitId, date) and no log with
  completed and partial both true, then so has the list after any toggleHabit call
  (FULL and PARTIAL, and the TOGGLE mode that returns the list as it is).
\<close>

theorem toggleHabit_preserves_invariants:
  assumes "one_log_per_key ls" and "flags_exclusive ls"
  shows "one_log_per_key (toggleHabit hId d type ls) \<and> flags_exclusive (toggleHabit hId d type ls)"
proof (cases type)
  case FULL
  show ?thesis
  proof (cases "opt_flag completed (find (is_key hId d) ls)")
    case True
    then show ?thesis
      using assms FULL
      by (simp add: toggleHabit_FULL_on one_log_per_key_clean flags_exclusive_clean)
  next
    case False
    then show ?thesis
      using assms FULL
      by (simp add: toggleHabit_FULL_off one_log_per_key_snoc flags_exclusive_snoc)
  qed
next
  case PARTIAL
  show ?thesis
  proof (cases "opt_flag partial (find (is_key hId d) ls)")
    case True
    then show ?thesis
      using assms PARTIAL
      by (simp add: toggleHabit_PARTIAL_on one_log_per_key_clean flags_exclusive_clean)
  next
    case False
    then show ?thesis
      using assms PARTIAL
      by (simp add: toggleHabit_PARTIAL_off one_log_per_key_snoc flags_exclusive_snoc)
  qed
next
  case TOGGLE
  then show ?thesis
    using assms by (simp add: toggleHabit_TOGGLE)
qed

theorem toggleHabit_preserves_invariants_witness:
  "one_log_per_key [\<lparr>date = ''2024-03-01'', habitId = ''1'', completed = False, partial = True\<rparr>]
   \<and> flags_exclusive [\<lparr>date = ''2024-03-01'', habitId = ''1'', completed = False, partial = True\<rparr>]
   \<and> one_log_per_key (toggleHabit ''1'' ''2024-03-01'' FULL
         [\<lparr>date = ''2024-03-01'', habitId = ''1'', completed = False, partial = True\<rparr>])
   \<and> flags_exclusive (toggleHabit ''1'' ''2024-03-01'' FULL
         [\<lparr>date = ''2024-03-01'', habitId = ''1'', completed = False, partial = True\<rparr>])"
proof -
  have h1: "one_log_per_key
      [\<lparr>date = ''2024-03-01'', habitId = ''1'', completed = False, partial = True\<rparr>]"
    by (simp add: one_log_per_key_def)
  have h2: "flags_exclusive
      [\<lparr>date = ''2024-03-01'', habitId = ''1'', completed = False, partial = True\<rparr>]"
    by (simp add: flags_exclusive_def)
  show ?thesis
    using h1 h2 toggleHabit_preserves_invariants [OF h1 h2, of "''1''" "''2024-03-01''" FULL]
    by blast
qed

subsection \<open>Two toggles in a row\<close>

lemma find_clean_snoc:
  "is_key hId d r \<Longrightarrow> find (is_key hId d) (filter (\<lambda>l. \<not> is_key hId d l) ls @ [r]) = Some r"
  by (simp add: find_append find_filter_neg_None)

lemma clean_clean_snoc:
  "is_key hId d r \<Longrightarrow>
   filter (\<lambda>l. \<not> is_key hId d l) (filter (\<lambda>l. \<not> is_key hId d l) ls @ [r])
     = filter (\<lambda>l. \<not> is_key hId d l) ls"
  by simp

lemma is_key_new: "is_key hId d \<lparr>date = d, habitId = hId, completed = c, partial = p\<rparr>"
  by (simp add: is_key_def)

lemma FULL_FULL_from_on:
  assumes "opt_flag completed (find (is_key hId d) ls)"
  shows "toggleHabit hId d FULL (toggleHabit hId d FULL ls)
           = filter (\<lambda>l. \<not> is_key hId d l) ls
               @ [\<lparr>date = d, habitId = hId, completed = True, partial = False\<rparr>]"
proof -
  have "toggleHabit hId d FULL ls = filter (\<lambda>l. \<not> is_key hId d l) ls"
    using assms by (rule toggleHabit_FULL_on)
  moreover have "\<not> opt_flag completed (find (is_key hId d) (filter (\<lambda>l. \<not> is_key hId d l) ls))"
    by (simp add: find_filter_neg_None opt_flag_def)
  ultimately show ?thesis
    by (simp add: toggleHabit_FULL_off)
qed

lemma FULL_FULL_from_off:
  assumes "\<not> opt_flag completed (find (is_key hId d) ls)"
  shows "toggleHabit hId d FULL (toggleHabit hId d FULL ls) = filter (\<lambda>l. \<not> is_key hId d l) ls"
proof -
  let ?r = "\<lparr>date = d, habitId = hId, completed = True, partial = False\<rparr>"
  have "toggleHabit hId d FULL ls = filter (\<lambda>l. \<not> is_key hId d l) ls @ [?r]"
    using assms by (rule toggleHabit_FULL_off)
  moreover have "opt_flag completed (find (is_key hId d) (filter (\<lambda>l. \<not> is_key hId d l) ls @ [?r]))"
    by (simp add: find_clean_snoc is_key_new opt_flag_def)
  ultimately show ?thesis
    by (simp add: toggleHabit_FULL_on is_key_new)
qed

lemma PARTIAL_PARTIAL_from_on:
  assumes "opt_flag partial (find (is_key hId d) ls)"
  shows "toggleHabit hId d PARTIAL (toggleHabit hId d PARTIAL ls)
           = filter (\<lambda>l. \<not> is_key hId d l) ls
               @ [\<lparr>date = d, habitId = hId, completed = False, partial = True\<rparr>]"
proof -
  have "toggleHabit hId d PARTIAL ls = filter (\<lambda>l. \<not> is_key hId d l) ls"
    using assms by (rule toggleHabit_PARTIAL_on)
  moreover have "\<not> opt_flag partial (find (is_key hId d) (filter (\<lambda>l. \<not> is_key hId d l) ls))"
    by (simp add: find_filter_neg_None opt_flag_def)
  ultimately show ?thesis
    by (simp add: toggleHabit_PARTIAL_off)
qed

lemma PARTIAL_PARTIAL_from_off:
  assumes "\<not> opt_flag partial (find (is_key hId d) ls)"
  shows "toggleHabit hId d PARTIAL (toggleHabit hId d PARTIAL ls)
           = filter (\<lambda>l. \<not> is_key hId d l) ls"
proof -
  let ?r = "\<lparr>date = d, habitId = hId, completed = False, partial = True\<rparr>"
  have "toggleHabit hId d PARTIAL ls = filter (\<lambda>l. \<not> is_key hId d l) ls @ [?r]"
    using assms by (rule toggleHabit_PARTIAL_off)
  moreover have "opt_flag partial (find (is_key hId d) (filter (\<lambda>l. \<not> is_key hId d l) ls @ [?r]))"
    by (simp add: find_clean_snoc is_key_new opt_flag_def)
  ultimately show ?thesis
    by (simp add: toggleHabit_PARTIAL_on is_key_new)
qed

lemma FULL_then_PARTIAL:
  "toggleHabit hId d PARTIAL (toggleHabit hId d FULL ls)
     = filter (\<lambda>l. \<not> is_key hId d l) ls
         @ [\<lparr>date = d, habitId = hId, completed = False, partial = True\<rparr>]"
proof (cases "opt_flag completed (find (is_key hId d) ls)")
  case True
  then have "toggleHabit hId d FULL ls = filter (\<lambda>l. \<not> is_key hId d l) ls"
    by (rule toggleHabit_FULL_on)
  moreover have "\<not> opt_flag partial (find (is_key hId d) (filter (\<lambda>l. \<not> is_key hId d l) ls))"
    by (simp add: find_filter_neg_None opt_flag_def)
  ultimately show ?thesis
    by (simp add: toggleHabit_PARTIAL_off)
next
  case False
  let ?r = "\<lparr>date = d, habitId = hId, completed = True, partial = False\<rparr>"
  from False have "toggleHabit hId d FULL ls = filter (\<lambda>l. \<not> is_key hId d l) ls @ [?r]"
    by (rule toggleHabit_FULL_off)
  moreover have "\<not> opt_flag partial (find (is_key hId d) (filter (\<lambda>l. \<not> is_key hId d l) ls @ [?r]))"
    by (simp add: find_clean_snoc is_key_new opt_flag_def)
  ultimately show ?thesis
    by (simp add: toggleHabit_PARTIAL_off is_key_new)
qed

lemma key_state_clean: "key_state hId d (filter (\<lambda>l. \<not> is_key hId d l) ls) = None"
  by (simp add: key_state_def find_filter_neg_None)

lemma key_state_clean_snoc:
  "key_state hId d (filter (\<lambda>l. \<not> is_key hId d l) ls
      @ [\<lparr>date = d, habitId = hId, completed = c, partial = p\<rparr>])
   = Some \<lparr>date = d, habitId = hId, completed = c, partial = p\<rparr>"
  by (simp add: key_state_def find_clean_snoc is_key_new)

lemma key_state_SomeD:
  "key_state hId d ls = Some l \<Longrightarrow>
   l = \<lparr>date = d, habitId = hId, completed = completed l, partial = partial l\<rparr>"
  by (auto simp: key_state_def find_Some_iff is_key_def)

text \<open>
  Claim C2, as the code has it. Two FULL toggles give the key its state back when it had
  no log or a log with completed = true and partial = false; from any log that is not
  completed (a partial one) they leave the key without a log. The same with PARTIAL for
  FULL and partial for completed.
\<close>

theorem toggleHabit_twice:
  "(key_state hId d ls = None \<or> (\<exists>l. key_state hId d ls = Some l \<and> completed l \<and> \<not> partial l)
      \<longrightarrow> key_state hId d (toggleHabit hId d FULL (toggleHabit hId d FULL ls)) = key_state hId d ls)
   \<and> ((\<exists>l. key_state hId d ls = Some l \<and> \<not> completed l)
      \<longrightarrow> key_state hId d (toggleHabit hId d FULL (toggleHabit hId d FULL ls)) = None)
   \<and> (key_state hId d ls = None \<or> (\<exists>l. key_state hId d ls = Some l \<and> partial l \<and> \<not> completed l)
      \<longrightarrow> key_state hId d (toggleHabit hId d PARTIAL (toggleHabit hId d PARTIAL ls)) = key_state hId d ls)
   \<and> ((\<exists>l. key_state hId d ls = Some l \<and> \<not> partial l)
      \<longrightarrow> key_state hId d (toggleHabit hId d PARTIAL (toggleHabit hId d PARTIAL ls)) = None)"
proof (intro conjI impI)
  assume "key_state hId d ls = None \<or> (\<exists>l. key_state hId d ls = Some l \<and> completed l \<and> \<not> partial l)"
  then show "key_state hId d (toggleHabit hId d FULL (toggleHabit hId d FULL ls)) = key_state hId d ls"
  proof
    assume n: "key_state hId d ls = None"
    then have "\<not> opt_flag completed (find (is_key hId d) ls)"
      by (simp add: key_state_def opt_flag_def)
    then show ?thesis
      using n by (simp add: FULL_FULL_from_off key_state_clean)
  next
    assume "\<exists>l. key_state hId d ls = Some l \<and> completed l \<and> \<not> partial l"
    then obtain l where l: "key_state hId d ls = Some l" "completed l" "\<not> partial l"
      by blast
    then have "opt_flag completed (find (is_key hId d) ls)"
      by (simp add: key_state_def opt_flag_def)
    moreover have "l = \<lparr>date = d, habitId = hId, completed = True, partial = False\<rparr>"
      using key_state_SomeD [OF l(1)] l(2,3) by simp
    ultimately show ?thesis
      using l(1) by (simp add: FULL_FULL_from_on key_state_clean_snoc)
  qed
next
  assume "\<exists>l. key_state hId d ls = Some l \<and> \<not> completed l"
  then have "\<not> opt_flag completed (find (is_key hId d) ls)"
    by (auto simp: key_state_def opt_flag_def)
  then show "key_state hId d (toggleHabit hId d FULL (toggleHabit hId d FULL ls)) = None"
    by (simp add: FULL_FULL_from_off key_state_clean)
next
  assume "key_state hId d ls = None \<or> (\<exists>l. key_state hId d ls = Some l \<and> partial l \<and> \<not> completed l)"
  then show "key_state hId d (toggleHabit hId d PARTIAL (toggleHabit hId d PARTIAL ls)) = key_state hId d ls"
  proof
    assume n: "key_state hId d ls = None"
    then have "\<not> opt_flag partial (find (is_key hId d) ls)"
      by (simp add: key_state_def opt_flag_def)
    then show ?thesis
      using n by (simp add: PARTIAL_PARTIAL_from_off key_state_clean)
  next
    assume "\<exists>l. key_state hId d ls = Some l \<and> partial l \<and> \<not> completed l"
    then obtain l where l: "key_state hId d ls = Some l" "partial l" "\<not> completed l"
      by blast
    then have "opt_flag partial (find (is_key hId d) ls)"
      by (simp add: key_state_def opt_flag_def)
    moreover have "l = \<lparr>date = d, habitId = hId, completed = False, partial = True\<rparr>"
      using key_state_SomeD [OF l(1)] l(2,3) by simp
    ultimately show ?thesis
      using l(1) by (simp add: PARTIAL_PARTIAL_from_on key_state_clean_snoc)
  qed
next
  assume "\<exists>l. key_state hId d ls = Some l \<and> \<not> partial l"
  then have "\<not> opt_flag partial (find (is_key hId d) ls)"
    by (auto simp: key_state_def opt_flag_def)
  then show "key_state hId d (toggleHabit hId d PARTIAL (toggleHabit hId d PARTIAL ls)) = None"
    by (simp add: PARTIAL_PARTIAL_from_off key_state_clean)
qed

theorem toggleHabit_twice_witness:
  "key_state ''1'' ''2024-03-01'' [] = None
   \<and> key_state ''1'' ''2024-03-01''
        (toggleHabit ''1'' ''2024-03-01'' FULL (toggleHabit ''1'' ''2024-03-01'' FULL [])) = None
   \<and> key_state ''1'' ''2024-03-01''
        (toggleHabit ''1'' ''2024-03-01'' PARTIAL (toggleHabit ''1'' ''2024-03-01'' PARTIAL [])) = None
   \<and> key_state ''1'' ''2024-03-01''
      [\<lparr>date = ''2024-03-01'', habitId = ''1'', completed = True, partial = False\<rparr>]
     = Some \<lparr>date = ''2024-03-01'', habitId = ''1'', completed = True, partial = False\<rparr>
   \<and> key_state ''1'' ''2024-03-01'' (toggleHabit ''1'' ''2024-03-01'' FULL (toggleHabit ''1'' ''2024-03-01'' FULL
        [\<lparr>date = ''2024-03-01'', habitId = ''1'', completed = True, partial = False\<rparr>]))
     = Some \<lparr>date = ''2024-03-01'', habitId = ''1'', completed = True, partial = False\<rparr>
   \<and> key_state ''1'' ''2024-03-01'' (toggleHabit ''1'' ''2024-03-01'' PARTIAL (toggleHabit ''1'' ''2024-03-01'' PARTIAL
        [\<lparr>date = ''2024-03-01'', habitId = ''1'', completed = True, partial = False\<rparr>]))
     = None
   \<and> key_state ''1'' ''2024-03-01''
      [\<lparr>date = ''2024-03-01'', habitId = ''1'', completed = False, partial = True\<rparr>]
     = Some \<lparr>date = ''2024-03-01'', habitId = ''1'', completed = False, partial = True\<rparr>
   \<and> key_state ''1'' ''2024-03-01'' (toggleHabit ''1'' ''2024-03-01'' FULL (toggleHabit ''1'' ''2024-03-01'' FULL
        [\<lparr>date = ''2024-03-01'', habitId = ''1'', completed = False, partial = True\<rparr>]))
     = None
   \<and> key_state ''1'' ''2024-03-01'' (toggleHabit ''1'' ''2024-03-01'' PARTIAL (toggleHabit ''1'' ''2024-03-01'' PARTIAL
        [\<lparr>date = ''2024-03-01'', habitId = ''1'', completed = False, partial = True\<rparr>]))
     = Some \<lparr>date = ''2024-03-01'', habitId = ''1'', completed = False, partial = True\<rparr>"
proof -
  let ?f = "\<lparr>date = ''2024-03-01'', habitId = ''1'', completed = True, partial = False\<rparr>"
  let ?p = "\<lparr>date = ''2024-03-01'', habitId = ''1'', completed = False, partial = True\<rparr>"
  have f: "key_state ''1'' ''2024-03-01'' [?f] = Some ?f"
    by (simp add: key_state_def is_key_def)
  have p: "key_state ''1'' ''2024-03-01'' [?p] = Some ?p"
    by (simp add: key_state_def is_key_def)
  have n: "key_state ''1'' ''2024-03-01'' [] = None"
    by (simp add: key_state_def)
  show ?thesis
    using f p n
      toggleHabit_twice [of "''1''" "''2024-03-01''" "[]"]
      toggleHabit_twice [of "''1''" "''2024-03-01''" "[?f]"]
      toggleHabit_twice [of "''1''" "''2024-03-01''" "[?p]"]
    by simp
qed

text \<open>
  The claim as the specification words it (two FULL toggles restore every starting state)
  fails from a partial log: the first toggle replaces it by a full log, the second deletes
  that one.
\<close>

theorem toggleHabit_twice_counterexample:
  "key_state ''1'' ''2024-03-01'' (toggleHabit ''1'' ''2024-03-01'' FULL (toggleHabit ''1'' ''2024-03-01'' FULL
      [\<lparr>date = ''2024-03-01'', habitId = ''1'', completed = False, partial = True\<rparr>]))
   \<noteq> key_state ''1'' ''2024-03-01''
      [\<lparr>date = ''2024-03-01'', habitId = ''1'', completed = False, partial = True\<rparr>]"
  by (simp add: toggleHabit_def key_state_def is_key_def opt_flag_def)

text \<open>
  Claim C3. Whatever the log list was, after toggleHabit FULL and then toggleHabit PARTIAL
  on the same key the list holds exactly one log of that key, with completed = false and
  partial = true.
\<close>

theorem toggleHabit_FULL_then_PARTIAL:
  "logs_of_key hId d (toggleHabit hId d PARTIAL (toggleHabit hId d FULL ls))
     = [\<lparr>date = d, habitId = hId, completed = False, partial = True\<rparr>]"
  by (simp add: logs_of_key_def FULL_then_PARTIAL filter_filter_neg_Nil is_key_new)

section \<open>Facts about deleteHabit\<close>

text \<open>
  Claim C4. deleteHabit (idH h) removes h from the habit list (and keeps every habit with
  another id), and of the logs it removes exactly those whose habitId is idH h: none of
  them is left, and the logs with another habitId are all there, in their order. The
  other four collections are as before.
\<close>

theorem deleteHabit_cascade:
  "h \<notin> set (habits (deleteHabit (idH h) s))
   \<and> habits (deleteHabit (idH h) s) = filter (\<lambda>h'. idH h' \<noteq> idH h) (habits s)
   \<and> (\<forall>l \<in> set (logs (deleteHabit (idH h) s)). habitId l \<noteq> idH h)
   \<and> logs (deleteHabit (idH h) s) = filter (\<lambda>l. habitId l \<noteq> idH h) (logs s)
   \<and> microWins (deleteHabit (idH h) s) = microWins s
   \<and> microWinLogs (deleteHabit (idH h) s) = microWinLogs s
   \<and> dayPlans (deleteHabit (idH h) s) = dayPlans s
   \<and> journalEntries (deleteHabit (idH h) s) = journalEntries s"
  by (simp add: deleteHabit_def)

theorem deleteHabit_cascade_witness:
  "\<lparr>idH = ''1'', name = ''Run'', objective = ''5km'', minObjective = ''1km'',
      createdAt = ''2024-02-01T08:00:00.000Z''\<rparr>
     \<in> set (habits
        \<lparr>habits = [\<lparr>idH = ''1'', name = ''Run'', objective = ''5km'', minObjective = ''1km'',
                     createdAt = ''2024-02-01T08:00:00.000Z''\<rparr>,
                   \<lparr>idH = ''2'', name = ''Read'', objective = ''30 Pages'', minObjective = ''5 Pages'',
                     createdAt = ''2024-02-01T08:00:00.000Z''\<rparr>],
         logs = [\<lparr>date = ''2024-03-01'', habitId = ''1'', completed = True, partial = False\<rparr>,
                 \<lparr>date = ''2024-03-01'', habitId = ''2'', completed = False, partial = True\<rparr>],
         microWins = [], microWinLogs = [], dayPlans = [], journalEntries = []\<rparr>)
   \<and> logs (deleteHabit ''1''
        \<lparr>habits = [\<lparr>idH = ''1'', name = ''Run'', objective = ''5km'', minObjective = ''1km'',
                     createdAt = ''2024-02-01T08:00:00.000Z''\<rparr>,
                   \<lparr>idH = ''2'', name = ''Read'', objective = ''30 Pages'', minObjective = ''5 Pages'',
                     createdAt = ''2024-02-01T08:00:00.000Z''\<rparr>],
         logs = [\<lparr>date = ''2024-03-01'', habitId = ''1'', completed = True, partial = False\<rparr>,
                 \<lparr>date = ''2024-03-01'', habitId = ''2'', completed = False, partial = True\<rparr>],
         microWins = [], microWinLogs = [], dayPlans = [], journalEntries = []\<rparr>)
     = [\<lparr>date = ''2024-03-01'', habitId = ''2'', completed = False, partial = True\<rparr>]
   \<and> habits (deleteHabit ''1''
        \<lparr>habits = [\<lparr>idH = ''1'', name = ''Run'', objective = ''5km'', minObjective = ''1km'',
                     createdAt = ''2024-02-01T08:00:00.000Z''\<rparr>,
                   \<lparr>idH = ''2'', name = ''Read'', objective = ''30 Pages'', minObjective = ''5 Pages'',
                     createdAt = ''2024-02-01T08:00:00.000Z''\<rparr>],
         logs = [\<lparr>date = ''2024-03-01'', habitId = ''1'', completed = True, partial = False\<rparr>,
                 \<lparr>date = ''2024-03-01'', habitId = ''2'', completed = False, partial = True\<rparr>],
         microWins = [], microWinLogs = [], dayPlans = [], journalEntries = []\<rparr>)
     = [\<lparr>idH = ''2'', name = ''Read'', objective = ''30 Pages'', minObjective = ''5 Pages'',
          createdAt = ''2024-02-01T08:00:00.000Z''\<rparr>]"
  using deleteHabit_cascade
    [of "\<lparr>idH = ''1'', name = ''Run'', objective = ''5km'', minObjective = ''1km'',
           createdAt = ''2024-02-01T08:00:00.000Z''\<rparr>"
        "\<lparr>habits = [\<lparr>idH = ''1'', name = ''Run'', objective = ''5km'', minObjective = ''1km'',
                     createdAt = ''2024-02-01T08:00:00.000Z''\<rparr>,
                   \<lparr>idH = ''2'', name = ''Read'', objective = ''30 Pages'', minObjective = ''5 Pages'',
                     createdAt = ''2024-02-01T08:00:00.000Z''\<rparr>],
         logs = [\<lparr>date = ''2024-03-01'', habitId = ''1'', completed = True, partial = False\<rparr>,
                 \<lparr>date = ''2024-03-01'', habitId = ''2'', completed = False, partial = True\<rparr>],
         microWins = [], microWinLogs = [], dayPlans = [], journalEntries = []\<rparr>"]
  by simp

section \<open>Facts about the reorder operations\<close>

lemma splice_remove_one:
  assumes "0 \<le> f" and "f < int (length xs)"
  shows "splice f 1 [] xs = ([xs ! nat f], remove_at (nat f) xs)"
proof -
  have n: "nat f < length xs"
    using assms by linarith
  have "take (Suc 0) (drop (nat f) xs) = [xs ! nat f]"
    using n by (simp add: Cons_nth_drop_Suc [symmetric])
  moreover have "min 1 (int (length xs) - f) = 1"
    using assms by linarith
  ultimately show ?thesis
    using assms by (simp add: splice_def Let_def remove_at_def min_absorb1)
qed

lemma splice_remove_past_end:
  assumes "int (length xs) \<le> f"
  shows "splice f 1 [] xs = ([], xs)"
  using assms by (simp add: splice_def Let_def min_absorb2)

lemma splice_remove_negative:
  assumes "f < 0"
  shows "splice f 1 [] xs = splice (max (int (length xs) + f) 0) 1 [] xs"
  using assms by (simp add: splice_def Let_def)

lemma splice_insert:
  assumes "0 \<le> t" and "t \<le> int (length xs)"
  shows "splice t 0 [x] xs = ([], insert_at (nat t) x xs)"
  using assms by (simp add: splice_def Let_def insert_at_def min_absorb1)

lemma length_remove_at: "i < length xs \<Longrightarrow> length (remove_at i xs) = length xs - 1"
  by (simp add: remove_at_def)

lemma reorderHabits_in_range:
  assumes "0 \<le> f" and "f < int (length hs)" and "0 \<le> t" and "t < int (length hs)"
  shows "reorderHabits f t hs = insert_at (nat t) (hs ! nat f) (remove_at (nat f) hs)"
proof -
  have "nat f < length hs"
    using assms by linarith
  then have "t \<le> int (length (remove_at (nat f) hs))"
    using assms by (simp add: length_remove_at)
  then show ?thesis
    using assms
    by (simp add: reorderHabits_def splice_remove_one splice_insert first_slot_def)
qed

lemma reorderHabits_target_out_of_range:
  "t < 0 \<or> int (length hs) \<le> t \<Longrightarrow> reorderHabits f t hs = hs"
  by (auto simp: reorderHabits_def)

text \<open>
  Claim C7. With fromIndex and toIndex both in [0, length - 1], reorderHabits removes the
  element at fromIndex and reinserts it at toIndex; with toIndex outside that range (and
  any fromIndex) it returns the list as it is; and [A, B, C] with (0, 2) becomes [B, C, A].
\<close>

theorem reorderHabits_move:
  "(0 \<le> f \<and> f < int (length hs) \<and> 0 \<le> t \<and> t < int (length hs)
      \<longrightarrow> reorderHabits f t hs = insert_at (nat t) (hs ! nat f) (remove_at (nat f) hs))
   \<and> (t < 0 \<or> int (length hs) \<le> t \<longrightarrow> reorderHabits f t hs = hs)
   \<and> reorderHabits 0 2 [A, B, C] = [B, C, A]"
proof (intro conjI impI)
  assume "0 \<le> f \<and> f < int (length hs) \<and> 0 \<le> t \<and> t < int (length hs)"
  then show "reorderHabits f t hs = insert_at (nat t) (hs ! nat f) (remove_at (nat f) hs)"
    by (simp add: reorderHabits_in_range)
next
  assume "t < 0 \<or> int (length hs) \<le> t"
  then show "reorderHabits f t hs = hs"
    by (rule reorderHabits_target_out_of_range)
next
  have "reorderHabits 0 2 [A, B, C] = insert_at (nat 2) ([A, B, C] ! nat 0) (remove_at (nat 0) [A, B, C])"
    by (rule reorderHabits_in_range) simp_all
  then show "reorderHabits 0 2 [A, B, C] = [B, C, A]"
    by (simp add: insert_at_def remove_at_def)
qed

theorem reorderHabits_move_witness:
  "reorderHabits 2 0 [Some ''A'', Some ''B'', Some ''C''] = [Some ''C'', Some ''A'', Some ''B'']
   \<and> reorderHabits 2 3 [Some ''A'', Some ''B'', Some ''C''] = [Some ''A'', Some ''B'', Some ''C'']
   \<and> reorderHabits 2 (- 1) [Some ''A'', Some ''B'', Some ''C''] = [Some ''A'', Some ''B'', Some ''C'']"
  using reorderHabits_move [of 2 "[Some ''A'', Some ''B'', Some ''C'']" 0 "Some ''A''" "Some ''B''" "Some ''C''"]
        reorderHabits_move [of 2 "[Some ''A'', Some ''B'', Some ''C'']" 3 "Some ''A''" "Some ''B''" "Some ''C''"]
        reorderHabits_move [of 2 "[Some ''A'', Some ''B'', Some ''C'']" "- 1" "Some ''A''" "Some ''B''" "Some ''C''"]
  by (simp add: insert_at_def remove_at_def)

subsection \<open>A source index outside the list\<close>

lemma reorderMicroWins_eq: "reorderMicroWins f t xs = reorderHabits f t xs"
  by (simp add: reorderMicroWins_def reorderHabits_def)

lemma length_insert_at: "length (insert_at i x xs) = Suc (length xs)"
  by (simp add: insert_at_def)

lemma reorderHabits_source_past_end:
  assumes "int (length xs) \<le> f" and "0 \<le> t" and "t < int (length xs)"
  shows "reorderHabits f t xs = insert_at (nat t) None xs"
  using assms
  by (simp add: reorderHabits_def splice_remove_past_end splice_insert first_slot_def)

lemma reorderHabits_source_negative:
  assumes "f < 0"
  shows "reorderHabits f t xs = reorderHabits (max (int (length xs) + f) 0) t xs"
  using assms by (simp add: reorderHabits_def splice_remove_negative [of f])

lemma length_reorderHabits_in_range:
  assumes "0 \<le> f" and "f < int (length xs)"
  shows "length (reorderHabits f t xs) = length xs"
proof (cases "0 \<le> t \<and> t < int (length xs)")
  case True
  have "nat f < length xs"
    using assms by linarith
  then show ?thesis
    using assms True
    by (simp add: reorderHabits_in_range length_insert_at length_remove_at)
next
  case False
  then have "t < 0 \<or> int (length xs) \<le> t"
    by linarith
  then show ?thesis
    by (simp add: reorderHabits_target_out_of_range)
qed

lemma length_reorderHabits_negative:
  assumes "f < 0"
  shows "length (reorderHabits f t xs) = length xs"
proof (cases "xs = []")
  case True
  then show ?thesis
    by (auto simp: reorderHabits_def)
next
  case False
  then have "0 \<le> max (int (length xs) + f) 0" and "max (int (length xs) + f) 0 < int (length xs)"
    using assms by simp_all
  then have "length (reorderHabits (max (int (length xs) + f) 0) t xs) = length xs"
    by (rule length_reorderHabits_in_range)
  then show ?thesis
    using assms by (simp add: reorderHabits_source_negative [of f])
qed

text \<open>
  Claim C10, as the code has it. Only toIndex is checked. With toIndex in
  [0, length - 1] and fromIndex at or beyond the length, the removal removes nothing, an
  undefined entry is inserted at toIndex and the list grows by one, in reorderHabits and
  in reorderMicroWins. A negative fromIndex counts from the end of the array (clamped to
  index 0): an element of the list is moved and the length stays.
\<close>

theorem reorder_unchecked_source:
  "(int (length xs) \<le> f \<and> 0 \<le> t \<and> t < int (length xs)
      \<longrightarrow> reorderHabits f t xs = insert_at (nat t) None xs
          \<and> length (reorderHabits f t xs) = length xs + 1
          \<and> reorderMicroWins f t xs = insert_at (nat t) None xs
          \<and> length (reorderMicroWins f t xs) = length xs + 1)
   \<and> (f < 0
      \<longrightarrow> reorderHabits f t xs = reorderHabits (max (int (length xs) + f) 0) t xs
          \<and> length (reorderHabits f t xs) = length xs
          \<and> reorderMicroWins f t xs = reorderMicroWins (max (int (length xs) + f) 0) t xs
          \<and> length (reorderMicroWins f t xs) = length xs)"
proof (intro conjI impI)
  assume a: "int (length xs) \<le> f \<and> 0 \<le> t \<and> t < int (length xs)"
  then show h: "reorderHabits f t xs = insert_at (nat t) None xs"
    by (simp add: reorderHabits_source_past_end)
  then show "length (reorderHabits f t xs) = length xs + 1"
    by (simp add: length_insert_at)
  from h show "reorderMicroWins f t xs = insert_at (nat t) None xs"
    by (simp add: reorderMicroWins_eq)
  from h show "length (reorderMicroWins f t xs) = length xs + 1"
    by (simp add: reorderMicroWins_eq length_insert_at)
next
  assume n: "f < 0"
  then show h: "reorderHabits f t xs = reorderHabits (max (int (length xs) + f) 0) t xs"
    by (rule reorderHabits_source_negative)
  from n show l: "length (reorderHabits f t xs) = length xs"
    by (rule length_reorderHabits_negative)
  from h show "reorderMicroWins f t xs = reorderMicroWins (max (int (length xs) + f) 0) t xs"
    by (simp add: reorderMicroWins_eq)
  from l show "length (reorderMicroWins f t xs) = length xs"
    by (simp add: reorderMicroWins_eq)
qed

theorem reorder_unchecked_source_witness:
  "reorderHabits 5 1 [Some ''A'', Some ''B'', Some ''C''] = [Some ''A'', None, Some ''B'', Some ''C'']
   \<and> length (reorderMicroWins 3 0 [Some ''A'', Some ''B'', Some ''C'']) = 4
   \<and> reorderHabits (- 2) 0 [Some ''A'', Some ''B'', Some ''C'']
       = reorderHabits 1 0 [Some ''A'', Some ''B'', Some ''C'']
   \<and> length (reorderMicroWins (- 2) 0 [Some ''A'', Some ''B'', Some ''C'']) = 3"
proof -
  let ?xs = "[Some ''A'', Some ''B'', Some ''C'']"
  have neg: "(- 2 :: int) < 0"
    by simp
  have "reorderHabits 5 1 ?xs = [Some ''A'', None, Some ''B'', Some ''C'']"
    using reorder_unchecked_source [of ?xs 5 1] by (simp add: insert_at_def)
  moreover have "length (reorderMicroWins 3 0 ?xs) = 4"
    using reorder_unchecked_source [of ?xs 3 0] by (simp add: insert_at_def)
  moreover have "reorderHabits (- 2) 0 ?xs = reorderHabits (max (int (length ?xs) + - 2) 0) 0 ?xs"
    using neg reorder_unchecked_source [of ?xs "- 2" 0] by blast
  then have "reorderHabits (- 2) 0 ?xs = reorderHabits 1 0 ?xs"
    by simp
  moreover have "length (reorderMicroWins (- 2) 0 ?xs) = length ?xs"
    using neg reorder_unchecked_source [of ?xs "- 2" 0] by blast
  then have "length (reorderMicroWins (- 2) 0 ?xs) = 3"
    by simp
  ultimately show ?thesis
    by blast
qed

text \<open>
  The claim as worded covers every fromIndex outside [0, length - 1]. With fromIndex = -1
  the removal takes the last element: [A, B, C] becomes [C, A, B], with no undefined
  entry and the same length, and a list of one element is returned as it was.
\<close>

theorem reorder_unchecked_source_counterexample:
  "reorderHabits (- 1) 0 [Some ''A'', Some ''B'', Some ''C''] = [Some ''C'', Some ''A'', Some ''B'']
   \<and> reorderHabits (- 1) 0 [Some ''A''] = [Some ''A'']"
  by (simp add: reorderHabits_def splice_def first_slot_def Let_def)

section \<open>Facts about handleImportData\<close>

text \<open>
  Claim C8. After a confirmed import each of the six collections is the imported field
  when the document has that field and is its value from before the import when the
  field is absent. A document with the habits field only replaces the habits and leaves
  the other five collections as they were.
\<close>

theorem handleImportData_frame:
  "habits (fst (handleImportData True data s))
      = (case habitsB data of Some v \<Rightarrow> v | None \<Rightarrow> habits s)
   \<and> logs (fst (handleImportData True data s))
      = (case logsB data of Some v \<Rightarrow> v | None \<Rightarrow> logs s)
   \<and> microWins (fst (handleImportData True data s))
      = (case microWinsB data of Some v \<Rightarrow> v | None \<Rightarrow> microWins s)
   \<and> microWinLogs (fst (handleImportData True data s))
      = (case microWinLogsB data of Some v \<Rightarrow> v | None \<Rightarrow> microWinLogs s)
   \<and> dayPlans (fst (handleImportData True data s))
      = (case dayPlansB data of Some v \<Rightarrow> v | None \<Rightarrow> dayPlans s)
   \<and> journalEntries (fst (handleImportData True data s))
      = (case journalEntriesB data of Some v \<Rightarrow> v | None \<Rightarrow> journalEntries s)
   \<and> (habitsB data = Some hs \<and> logsB data = None \<and> microWinsB data = None
        \<and> microWinLogsB data = None \<and> dayPlansB data = None \<and> journalEntriesB data = None
      \<longrightarrow> fst (handleImportData True data s) = s\<lparr>habits := hs\<rparr>)"
  by (simp add: handleImportData_def Let_def split: option.split)

theorem handleImportData_frame_witness:
  "fst (handleImportData True
      \<lparr>habitsB = Some [\<lparr>idH = ''9'', name = ''Swim'', objective = ''1km'', minObjective = ''200m'',
                         createdAt = ''2024-02-01T08:00:00.000Z''\<rparr>],
       logsB = None, microWinsB = None, microWinLogsB = None, dayPlansB = None,
       journalEntriesB = None, exportDate = None\<rparr>
      \<lparr>habits = [],
       logs = [\<lparr>date = ''2024-03-01'', habitId = ''1'', completed = True, partial = False\<rparr>],
       microWins = [\<lparr>idW = ''m1'', textW = ''Woke up at 9am''\<rparr>],
       microWinLogs = [\<lparr>dateW = ''2024-03-01'', winId = ''m1'', completedW = True\<rparr>],
       dayPlans = [\<lparr>dateP = ''2024-03-01'', tasks = []\<rparr>],
       journalEntries = [\<lparr>dateJ = ''2024-03-01'', content = ''ok''\<rparr>]\<rparr>)
   = \<lparr>habits = [\<lparr>idH = ''9'', name = ''Swim'', objective = ''1km'', minObjective = ''200m'',
                   createdAt = ''2024-02-01T08:00:00.000Z''\<rparr>],
      logs = [\<lparr>date = ''2024-03-01'', habitId = ''1'', completed = True, partial = False\<rparr>],
      microWins = [\<lparr>idW = ''m1'', textW = ''Woke up at 9am''\<rparr>],
      microWinLogs = [\<lparr>dateW = ''2024-03-01'', winId = ''m1'', completedW = True\<rparr>],
      dayPlans = [\<lparr>dateP = ''2024-03-01'', tasks = []\<rparr>],
      journalEntries = [\<lparr>dateJ = ''2024-03-01'', content = ''ok''\<rparr>]\<rparr>"
  using handleImportData_frame
    [of "\<lparr>habitsB = Some [\<lparr>idH = ''9'', name = ''Swim'', objective = ''1km'', minObjective = ''200m'',
                         createdAt = ''2024-02-01T08:00:00.000Z''\<rparr>],
       logsB = None, microWinsB = None, microWinLogsB = None, dayPlansB = None,
       journalEntriesB = None, exportDate = None\<rparr>"
      "\<lparr>habits = [],
       logs = [\<lparr>date = ''2024-03-01'', habitId = ''1'', completed = True, partial = False\<rparr>],
       microWins = [\<lparr>idW = ''m1'', textW = ''Woke up at 9am''\<rparr>],
       microWinLogs = [\<lparr>dateW = ''2024-03-01'', winId = ''m1'', completedW = True\<rparr>],
       dayPlans = [\<lparr>dateP = ''2024-03-01'', tasks = []\<rparr>],
       journalEntries = [\<lparr>dateJ = ''2024-03-01'', content = ''ok''\<rparr>]\<rparr>"
      "[\<lparr>idH = ''9'', name = ''Swim'', objective = ''1km'', minObjective = ''200m'',
                         createdAt = ''2024-02-01T08:00:00.000Z''\<rparr>]"]
  by simp

section \<open>Facts about analyzeProgress\<close>

text \<open>
  Claim C9. Called with a missing or empty credential, analyzeProgress returns the fixed
  configuration-missing message and issues no request, whatever the habits, the logs and
  the service are. A request is issued only with a non-empty credential (and then exactly
  one is).
\<close>

theorem analyzeProgress_missing_key:
  "analyzeProgress generateContent today weekAgo None hs ls
      = (''AI Configuration Missing. Please add your Google Gemini API Key in the Habits tab settings.'', [])
   \<and> analyzeProgress generateContent today weekAgo (Some []) hs ls
      = (''AI Configuration Missing. Please add your Google Gemini API Key in the Habits tab settings.'', [])
   \<and> (snd (analyzeProgress generateContent today weekAgo apiKey hs ls) \<noteq> []
        \<longrightarrow> (\<exists>k. apiKey = Some k \<and> k \<noteq> []))
   \<and> ((\<exists>k. apiKey = Some k \<and> k \<noteq> [])
        \<longrightarrow> length (snd (analyzeProgress generateContent today weekAgo apiKey hs ls)) = 1)"
  by (auto simp: analyzeProgress_def Let_def split: option.splits)

theorem analyzeProgress_missing_key_witness:
  "snd (analyzeProgress (\<lambda>r. Some ''You have kept a steady pace.'') ''2024-03-01'' ''2024-02-23''
          (Some ''secret'') [] []) \<noteq> []
   \<and> length (snd (analyzeProgress (\<lambda>r. Some ''You have kept a steady pace.'') ''2024-03-01'' ''2024-02-23''
          (Some ''secret'') [] [])) = 1
   \<and> fst (analyzeProgress (\<lambda>r. Some ''You have kept a steady pace.'') ''2024-03-01'' ''2024-02-23''
          (Some []) [] [])
       = ''AI Configuration Missing. Please add your Google Gemini API Key in the Habits tab settings.''"
proof -
  have k: "\<exists>k. Some ''secret'' = Some k \<and> k \<noteq> []"
    by simp
  show ?thesis
    using k analyzeProgress_missing_key
      [of "\<lambda>r. Some ''You have kept a steady pace.''" "''2024-03-01''" "''2024-02-23''" "[]" "[]"
          "Some ''secret''"]
    by auto
qed

section \<open>The date library on concrete days\<close>

lemma dateFns_simps:
  "format_ymd dateFns = format_yyyy_MM_dd"
  "format_MMM_dd dateFns = format_MMM_dd_impl"
  "format_MMM_do dateFns = format_MMM_do_impl"
  "parseLocalDate dateFns = new_Date_of_parts"
  by (simp_all add: dateFns_def)

lemmas date_eval = format_yyyy_MM_dd_def format_MMM_dd_impl_def format_MMM_do_impl_def
  new_Date_of_parts_def civil_from_days_def civil_of_doe_def civil_of_yoe_def civil_of_doy_def
  civil_of_mp_def pad4_def pad2_def digit_def month_abbr_def ordinal_def
  days_from_civil_def days_of_shifted_def digit_value_def trim_def js_blank_def


lemma format_window_2024_03_01:
  "map format_yyyy_MM_dd
     [19783, 19782, 19781, 19780, 19779, 19778, 19777, 19776, 19775, 19774,
      19773, 19772, 19771, 19770, 19769, 19768, 19767, 19766, 19765, 19764,
      19763, 19762, 19761, 19760, 19759, 19758, 19757, 19756, 19755, 19754] =
  [''2024-03-01'', ''2024-02-29'', ''2024-02-28'', ''2024-02-27'', ''2024-02-26'', ''2024-02-25'',
   ''2024-02-24'', ''2024-02-23'', ''2024-02-22'', ''2024-02-21'', ''2024-02-20'', ''2024-02-19'',
   ''2024-02-18'', ''2024-02-17'', ''2024-02-16'', ''2024-02-15'', ''2024-02-14'', ''2024-02-13'',
   ''2024-02-12'', ''2024-02-11'', ''2024-02-10'', ''2024-02-09'', ''2024-02-08'', ''2024-02-07'',
   ''2024-02-06'', ''2024-02-05'', ''2024-02-04'', ''2024-02-03'', ''2024-02-02'', ''2024-02-01'']"
  by (simp add: date_eval)



lemma format_2024_03_01: "format_ymd dateFns 19783 = ''2024-03-01''"
  using format_window_2024_03_01 by (simp add: dateFns_simps)



section \<open>Facts about JavaScript numbers\<close>

lemma round_half_even_error:
  assumes "0 < b"
  shows "\<bar>real_of_int (round_half_even a b) - real_of_int a / real_of_int b\<bar> \<le> 1 / 2"
proof -
  let ?q = "a div b" and ?r = "a mod b"
  have r: "0 \<le> ?r" "?r < b"
    using assms by simp_all
  have "a = b * ?q + ?r"
    by simp
  then have "real_of_int a = real_of_int b * real_of_int ?q + real_of_int ?r"
    by (metis of_int_add of_int_mult)
  then have quot: "real_of_int a / real_of_int b = real_of_int ?q + real_of_int ?r / real_of_int b"
    using assms by (simp add: field_simps)
  have rb: "0 \<le> real_of_int ?r / real_of_int b" "real_of_int ?r / real_of_int b < 1"
    using r assms by simp_all
  have "2 * ?r \<le> b \<longleftrightarrow> real_of_int ?r / real_of_int b \<le> 1 / 2"
       "b \<le> 2 * ?r \<longleftrightarrow> 1 / 2 \<le> real_of_int ?r / real_of_int b"
    using assms by (simp_all add: field_simps) linarith+
  then have "round_half_even a b = ?q \<and> real_of_int ?r / real_of_int b \<le> 1 / 2
           \<or> round_half_even a b = ?q + 1 \<and> 1 / 2 \<le> real_of_int ?r / real_of_int b"
    by (auto simp: round_half_even_def)
  then show ?thesis
    using rb by (auto simp: quot)
qed

lemma bitlen_ge_one: "0 < a \<Longrightarrow> 1 \<le> bitlen a"
  using bitlen_eq_zero_iff [of a] bitlen_nonneg [of a] by linarith

lemma binade_scaled:
  assumes "0 < a" and "0 < b" and "a < 2 ^ 52 * b"
  shows "binade a b < 0" and "2 ^ 52 * b \<le> a * 2 ^ nat (- binade a b)"
proof -
  let ?la = "bitlen a" and ?lb = "bitlen b"
  have a1: "2 ^ nat (?la - 1) \<le> a"
    using bitlen_bounds [OF assms(1)] by simp
  have b2: "b < 2 ^ nat ?lb"
    using bitlen_bounds [OF assms(2)] by simp
  have la: "1 \<le> ?la" and lb: "1 \<le> ?lb"
    using assms by (simp_all add: bitlen_ge_one)
  have diff: "?la - ?lb \<le> 52"
  proof (rule ccontr)
    assume "\<not> ?la - ?lb \<le> 52"
    then have "nat ?lb + 52 \<le> nat (?la - 1)"
      using la lb by linarith
    then have "(2::int) ^ (nat ?lb + 52) \<le> 2 ^ nat (?la - 1)"
      by (rule power_increasing) simp
    then have "2 ^ 52 * 2 ^ nat ?lb \<le> a"
      using a1 by (simp add: power_add mult.commute)
    moreover have "2 ^ 52 * b < 2 ^ 52 * 2 ^ nat ?lb"
      using b2 by simp
    ultimately show False
      using assms(3) by linarith
  qed
  define e0 where "e0 = ?la - ?lb - 53"
  define k0 where "k0 = nat (- e0)"
  have e0: "e0 < 0"
    using diff by (simp add: e0_def)
  have k0: "nat (?la - 1) + k0 = nat ?lb + 52"
    using la lb diff by (simp add: k0_def e0_def)
  have "2 ^ 52 * b \<le> 2 ^ 52 * 2 ^ nat ?lb"
    using b2 by simp
  also have "\<dots> = 2 ^ (nat ?lb + 52)"
    by (simp only: power_add mult.commute)
  also have "\<dots> = 2 ^ (nat (?la - 1) + k0)"
    by (simp only: k0)
  also have "\<dots> = 2 ^ nat (?la - 1) * 2 ^ k0"
    by (simp only: power_add)
  also have "\<dots> \<le> a * 2 ^ k0"
    using a1 by (simp add: mult_right_mono)
  finally have s0: "2 ^ 52 * b \<le> a * 2 ^ k0" .
  have sc: "scale_num a e0 = a * 2 ^ k0" "scale_den b e0 = b"
    using e0 by (simp_all add: scale_num_def scale_den_def k0_def)
  have bin: "binade a b = (if a * 2 ^ k0 div b < 2 ^ 53 then e0 else e0 + 1)"
    by (simp add: binade_def binade_from_def e0_def [symmetric] sc)
  show "binade a b < 0" and "2 ^ 52 * b \<le> a * 2 ^ nat (- binade a b)"
  proof -
    have "binade a b < 0 \<and> 2 ^ 52 * b \<le> a * 2 ^ nat (- binade a b)"
    proof (cases "a * 2 ^ k0 div b < 2 ^ 53")
      case True
      then show ?thesis
        using e0 s0 by (simp add: bin k0_def)
    next
      case False
      then have "2 ^ 53 \<le> a * 2 ^ k0 div b"
        by simp
      then have "2 ^ 53 * b \<le> (a * 2 ^ k0 div b) * b"
        using assms(2) by (simp add: mult_right_mono)
      also have "\<dots> \<le> a * 2 ^ k0"
      proof -
        have "(a * 2 ^ k0 div b) * b + (a * 2 ^ k0) mod b = a * 2 ^ k0"
          by simp
        moreover have "0 \<le> (a * 2 ^ k0) mod b"
          using assms(2) by simp
        ultimately show ?thesis
          by linarith
      qed
      finally have big: "2 ^ 53 * b \<le> a * 2 ^ k0" .
      have "e0 \<noteq> - 1"
      proof
        assume "e0 = - 1"
        then have "k0 = 1"
          by (simp add: k0_def)
        with big have "2 ^ 53 * b \<le> a * 2"
          by simp
        with assms(3) show False
          by simp
      qed
      with e0 have e1: "e0 + 1 < 0"
        by linarith
      then have k1: "k0 = Suc (nat (- (e0 + 1)))"
        by (simp add: k0_def)
      have "2 ^ 53 * b \<le> 2 * (a * 2 ^ nat (- (e0 + 1)))"
        using big by (subst (asm) k1) (simp add: mult.commute mult.left_commute)
      then have "2 ^ 52 * b \<le> a * 2 ^ nat (- (e0 + 1))"
        by simp
      with e1 False show ?thesis
        by (simp add: bin)
    qed
    then show "binade a b < 0" and "2 ^ 52 * b \<le> a * 2 ^ nat (- binade a b)"
      by simp_all
  qed
qed

lemma nearest_double_error:
  assumes "0 < a" and "0 < b" and "a < 2 ^ 52 * b"
  shows "0 < snd (nearest_double a b)"
    and "\<bar>real_of_int (fst (nearest_double a b)) / real_of_int (snd (nearest_double a b))
            - real_of_int a / real_of_int b\<bar>
          \<le> (real_of_int a / real_of_int b) / 2 ^ 53"
proof -
  define k where "k = nat (- binade a b)"
  define m where "m = round_half_even (a * 2 ^ k) b"
  define P where "P = (2::real) ^ k"
  have e: "binade a b < 0" and s: "2 ^ 52 * b \<le> a * 2 ^ k"
    using binade_scaled [OF assms] by (simp_all add: k_def)
  have nd: "nearest_double a b = (m, 2 ^ k)"
    using assms(1) e
    by (simp add: nearest_double_def round_at_def scale_num_def scale_den_def k_def m_def)
  show "0 < snd (nearest_double a b)"
    by (simp add: nd)
  have P: "0 < P"
    by (simp add: P_def)
  have rb: "0 < real_of_int b"
    using assms(2) by simp
  have "\<bar>real_of_int m - real_of_int (a * 2 ^ k) / real_of_int b\<bar> \<le> 1 / 2"
    unfolding m_def using assms(2) by (rule round_half_even_error)
  then have err: "\<bar>real_of_int m - real_of_int a * P / real_of_int b\<bar> \<le> 1 / 2"
    by (simp add: P_def)
  have "real_of_int m / P - real_of_int a / real_of_int b
          = (real_of_int m - real_of_int a * P / real_of_int b) / P"
    using P rb by (simp add: field_simps)
  then have "\<bar>real_of_int m / P - real_of_int a / real_of_int b\<bar>
          = \<bar>real_of_int m - real_of_int a * P / real_of_int b\<bar> / P"
    using P by (simp add: abs_divide)
  also have "\<dots> \<le> (1 / 2) / P"
    using err P by (intro divide_right_mono) simp_all
  also have "\<dots> \<le> (real_of_int a / real_of_int b) / 2 ^ 53"
  proof -
    have "real_of_int (2 ^ 52 * b) \<le> real_of_int (a * 2 ^ k)"
      using s by (simp only: of_int_le_iff)
    then have "2 ^ 52 * real_of_int b \<le> real_of_int a * P"
      by (simp add: P_def)
    then have "2 ^ 52 \<le> real_of_int a * P / real_of_int b"
      using rb by (simp add: field_simps)
    then have "(1 / 2) * 2 ^ 53 \<le> (real_of_int a / real_of_int b) * P"
      by simp
    then show ?thesis
      using P by (simp add: field_simps)
  qed
  finally show "\<bar>real_of_int (fst (nearest_double a b)) / real_of_int (snd (nearest_double a b))
            - real_of_int a / real_of_int b\<bar>
          \<le> (real_of_int a / real_of_int b) / 2 ^ 53"
    by (simp add: nd P_def)
qed

lemma Math_round_floor:
  assumes "0 < snd x"
  shows "Math_round x = \<lfloor>real_of_int (fst x) / real_of_int (snd x) + 1 / 2\<rfloor>"
proof -
  have "real_of_int (fst x) / real_of_int (snd x) + 1 / 2
          = real_of_int (2 * fst x + snd x) / real_of_int (2 * snd x)"
    using assms by (simp add: field_simps)
  then show ?thesis
    by (simp only: Math_round_def floor_divide_of_int_eq)
qed

lemma percent_double_close:
  assumes "0 < a" and "0 < b" and "a < 2 ^ 43"
  shows "0 < snd (fmul (nearest_double a b) (num 100))"
    and "\<bar>real_of_int (fst (fmul (nearest_double a b) (num 100)))
             / real_of_int (snd (fmul (nearest_double a b) (num 100)))
           - 100 * real_of_int a / real_of_int b\<bar> < 1 / (2 * real_of_int b)"
proof -
  define M where "M = fst (nearest_double a b)"
  define D where "D = snd (nearest_double a b)"
  define A where "A = real_of_int a / real_of_int b"
  define qv where "qv = real_of_int M / real_of_int D"
  define y where "y = nearest_double (M * 100) D"
  define yv where "yv = real_of_int (fst y) / real_of_int (snd y)"
  have y: "fmul (nearest_double a b) (num 100) = y"
    by (simp add: fmul_def num_def y_def M_def D_def)
  have rb: "1 \<le> real_of_int b" and ra: "0 < real_of_int a"
    using assms by simp_all
  have A: "0 < A" and Aa: "A \<le> real_of_int a"
    using ra rb by (simp_all add: A_def field_simps mult_left_le)
  have small: "a < 2 ^ 52 * b"
  proof -
    have "a < 2 ^ 43 * 1"
      using assms(3) by simp
    also have "\<dots> \<le> 2 ^ 52 * b"
      using assms(2) by (intro mult_mono) simp_all
    finally show ?thesis .
  qed
  have D: "0 < D" and e1: "\<bar>qv - A\<bar> \<le> A / 2 ^ 53"
    using nearest_double_error [OF assms(1,2) small] by (simp_all add: D_def M_def qv_def A_def)
  have "A / 2 ^ 53 \<le> A / 2"
    using A by (intro divide_left_mono) simp_all
  with e1 have "\<bar>qv - A\<bar> \<le> A / 2"
    by linarith
  then have qlo: "0 < qv" and qhi: "qv \<le> 2 * A"
    using A by linarith+
  have M: "0 < M"
  proof -
    have "real_of_int M = qv * real_of_int D"
      using D by (simp add: qv_def)
    then have "0 < real_of_int M"
      using qlo D by simp
    then show ?thesis
      by simp
  qed
  have "100 * qv < 2 ^ 52"
  proof -
    have "100 * qv \<le> 200 * real_of_int a"
      using qhi Aa by linarith
    also have "\<dots> < 200 * 2 ^ 43"
      using assms(3) by (simp add: of_int_less_numeral_power_cancel_iff)
    also have "\<dots> \<le> (2::real) ^ 52"
      by simp
    finally show ?thesis .
  qed
  then have "real_of_int (M * 100) < real_of_int (2 ^ 52 * D)"
    using D by (simp add: qv_def field_simps)
  then have small2: "M * 100 < 2 ^ 52 * D"
    by (simp only: of_int_less_iff)
  have M100: "0 < M * 100"
    using M by simp
  have D': "0 < snd y"
    using nearest_double_error(1) [OF M100 D small2] by (simp add: y_def)
  have eq: "real_of_int (M * 100) / real_of_int D = 100 * qv"
    by (simp add: qv_def)
  have e2': "\<bar>yv - 100 * qv\<bar> \<le> 100 * qv / 2 ^ 53"
    using nearest_double_error(2) [OF M100 D small2]
    by (simp only: y_def [symmetric] yv_def [symmetric] eq)
  have "yv - 100 * A = (yv - 100 * qv) + 100 * (qv - A)"
    by simp
  then have "\<bar>yv - 100 * A\<bar> \<le> \<bar>yv - 100 * qv\<bar> + \<bar>100 * (qv - A)\<bar>"
    by (simp only: abs_triangle_ineq)
  also have "\<dots> = \<bar>yv - 100 * qv\<bar> + 100 * \<bar>qv - A\<bar>"
    by (simp only: abs_mult abs_numeral)
  also have "\<dots> \<le> 100 * qv / 2 ^ 53 + 100 * (A / 2 ^ 53)"
    using e1 e2' by (intro add_mono mult_left_mono) simp_all
  also have "\<dots> \<le> 300 * A / 2 ^ 53"
    using qhi by (simp add: field_simps)
  also have "\<dots> < 1 / (2 * real_of_int b)"
  proof -
    have "600 * real_of_int a < 1024 * 2 ^ 43"
      using assms(3) ra by (simp add: of_int_less_numeral_power_cancel_iff)
    then have "600 * real_of_int a < 2 ^ 53"
      by simp
    then have "300 * real_of_int a * (2 * real_of_int b) < 2 ^ 53 * real_of_int b"
      using rb by simp
    then show ?thesis
      using rb by (simp add: A_def field_simps)
  qed
  finally have close: "\<bar>yv - 100 * A\<bar> < 1 / (2 * real_of_int b)" .
  show "0 < snd (fmul (nearest_double a b) (num 100))"
    using D' by (simp add: y)
  show "\<bar>real_of_int (fst (fmul (nearest_double a b) (num 100)))
             / real_of_int (snd (fmul (nearest_double a b) (num 100)))
           - 100 * real_of_int a / real_of_int b\<bar> < 1 / (2 * real_of_int b)"
    using close by (simp add: y yv_def A_def)
qed

lemma Math_round_percent:
  assumes "0 \<le> a" and "0 < b" and "a < 2 ^ 43"
  shows "(200 * a + b) mod (2 * b) \<noteq> 0
           \<longrightarrow> Math_round (fmul (nearest_double a b) (num 100)) = (200 * a + b) div (2 * b)"
    and "Math_round (fmul (nearest_double a b) (num 100)) = (200 * a + b) div (2 * b)
           \<or> Math_round (fmul (nearest_double a b) (num 100)) = (200 * a + b) div (2 * b) - 1"
proof -
  define r where "r = Math_round (fmul (nearest_double a b) (num 100))"
  define k where "k = (200 * a + b) div (2 * b)"
  define p where "p = (200 * a + b) mod (2 * b)"
  have both: "(p \<noteq> 0 \<longrightarrow> r = k) \<and> (r = k \<or> r = k - 1)"
  proof (cases "a = 0")
    case True
    have "r = 0"
      by (simp add: r_def True nearest_double_def fmul_def num_def Math_round_def)
    moreover have "k = 0"
      using assms(2) by (simp add: k_def True)
    ultimately show ?thesis
      by simp
  next
    case False
    with assms(1) have a: "0 < a"
      by simp
    define yv where "yv = real_of_int (fst (fmul (nearest_double a b) (num 100)))
                            / real_of_int (snd (fmul (nearest_double a b) (num 100)))"
    define x where "x = 100 * real_of_int a / real_of_int b"
    define h where "h = 1 / (2 * real_of_int b)"
    have pos: "0 < snd (fmul (nearest_double a b) (num 100))"
      and close: "\<bar>yv - x\<bar> < h"
      using percent_double_close [OF a assms(2,3)] by (simp_all add: yv_def x_def h_def)
    have r: "r = \<lfloor>yv + 1 / 2\<rfloor>"
      unfolding r_def yv_def using pos by (rule Math_round_floor)
    have rb: "0 < real_of_int b"
      using assms(2) by simp
    have h: "0 < h" "h \<le> 1 / 2"
      using assms(2) by (simp_all add: h_def field_simps)
    have p: "0 \<le> p" "p < 2 * b"
      using assms(2) by (simp_all add: p_def)
    have "200 * a + b = 2 * b * k + p"
      by (simp add: k_def p_def)
    then have "real_of_int (200 * a + b) = real_of_int (2 * b * k + p)"
      by (simp only:)
    then have "200 * real_of_int a + real_of_int b = 2 * real_of_int b * real_of_int k + real_of_int p"
      by simp
    then have xk: "x + 1 / 2 = real_of_int k + real_of_int p * h"
      using rb by (simp add: x_def h_def field_simps)
    show ?thesis
    proof (cases "p = 0")
      case True
      with xk have "x + 1 / 2 = real_of_int k"
        by simp
      moreover have "yv - x < h" "x - yv < h"
        using close by linarith+
      ultimately have lo: "real_of_int k - 1 < yv + 1 / 2" and hi: "yv + 1 / 2 < real_of_int k + 1"
        using h by linarith+
      have "r = k \<or> r = k - 1"
      proof (cases "real_of_int k \<le> yv + 1 / 2")
        case True
        with hi have "\<lfloor>yv + 1 / 2\<rfloor> = k"
          by (intro floor_unique) simp_all
        then show ?thesis
          by (simp add: r)
      next
        case False
        with lo have "\<lfloor>yv + 1 / 2\<rfloor> = k - 1"
          by (intro floor_unique) simp_all
        then show ?thesis
          by (simp add: r)
      qed
      with True show ?thesis
        by simp
    next
      case False
      with p have p1: "1 \<le> p" and p2: "p \<le> 2 * b - 1"
        by linarith+
      have "real_of_int 1 \<le> real_of_int p"
        using p1 by (simp only: of_int_le_iff)
      moreover have "real_of_int p \<le> real_of_int (2 * b - 1)"
        using p2 by (simp only: of_int_le_iff)
      ultimately have "1 \<le> real_of_int p" "real_of_int p \<le> 2 * real_of_int b - 1"
        by simp_all
      then have "h \<le> real_of_int p * h" "real_of_int p * h \<le> 1 - h"
        using rb by (simp_all add: h_def field_simps)
      moreover define ph where "ph = real_of_int p * h"
      ultimately have ph: "h \<le> ph" "ph \<le> 1 - h"
        by simp_all
      have xk': "x + 1 / 2 = real_of_int k + ph"
        using xk by (simp add: ph_def)
      have c: "yv - x < h" "x - yv < h"
        using close by linarith+
      have "real_of_int k \<le> yv + 1 / 2" "yv + 1 / 2 < real_of_int k + 1"
        using xk' ph c by linarith+
      then have "\<lfloor>yv + 1 / 2\<rfloor> = k"
        by (intro floor_unique) simp_all
      then show ?thesis
        by (simp add: r)
    qed
  qed
  show "(200 * a + b) mod (2 * b) \<noteq> 0
           \<longrightarrow> Math_round (fmul (nearest_double a b) (num 100)) = (200 * a + b) div (2 * b)"
    using both by (simp add: r_def k_def p_def)
  show "Math_round (fmul (nearest_double a b) (num 100)) = (200 * a + b) div (2 * b)
           \<or> Math_round (fmul (nearest_double a b) (num 100)) = (200 * a + b) div (2 * b) - 1"
    using both by (simp add: r_def k_def)
qed

lemma js_round_percent_div:
  assumes "0 < b"
  shows "js_round (100 * real_of_int a / real_of_int b) = (200 * a + b) div (2 * b)"
proof -
  have "100 * real_of_int a / real_of_int b + 1 / 2
          = real_of_int (200 * a + b) / real_of_int (2 * b)"
    using assms by (simp add: field_simps)
  then show ?thesis
    by (simp only: js_round_def floor_divide_of_int_eq)
qed

lemma halfway_percent_iff:
  assumes "0 < b"
  shows "halfway (100 * real_of_int a / real_of_int b) \<longleftrightarrow> (200 * a + b) mod (2 * b) = 0"
proof -
  define x where "x = 100 * real_of_int a / real_of_int b"
  have rb: "0 < real_of_int b"
    using assms by simp
  have x: "x + 1 / 2 = real_of_int (200 * a + b) / real_of_int (2 * b)"
    using assms by (simp add: x_def field_simps)
  show ?thesis
  proof
    assume "halfway (100 * real_of_int a / real_of_int b)"
    then have "x - real_of_int \<lfloor>x\<rfloor> = 1 / 2"
      by (simp add: halfway_def frac_def x_def)
    then have "x + 1 / 2 = real_of_int (\<lfloor>x\<rfloor> + 1)"
      by simp
    with x have "real_of_int (200 * a + b) / real_of_int (2 * b) = real_of_int (\<lfloor>x\<rfloor> + 1)"
      by simp
    then have "real_of_int (200 * a + b) = real_of_int ((\<lfloor>x\<rfloor> + 1) * (2 * b))"
      using rb by (simp add: field_simps)
    then have "200 * a + b = (\<lfloor>x\<rfloor> + 1) * (2 * b)"
      by (simp only: of_int_eq_iff)
    then show "(200 * a + b) mod (2 * b) = 0"
      by simp
  next
    assume "(200 * a + b) mod (2 * b) = 0"
    then obtain k where "200 * a + b = 2 * b * k"
      by (auto simp: mod_eq_0_iff_dvd)
    with x have "x + 1 / 2 = real_of_int (2 * b * k) / real_of_int (2 * b)"
      by (simp only:)
    also have "\<dots> = real_of_int k"
      using rb by simp
    finally have xk: "x = real_of_int k - 1 / 2"
      by simp
    then have "\<lfloor>x\<rfloor> = k - 1"
      by (intro floor_unique) simp_all
    with xk show "halfway (100 * real_of_int a / real_of_int b)"
      by (simp add: halfway_def frac_def x_def [symmetric])
  qed
qed

lemma Math_round_percent_agrees:
  assumes "0 \<le> a" and "0 < b" and "a < 2 ^ 43"
  shows "agrees_up_to_tie (Math_round (fmul (nearest_double a b) (num 100)))
           (100 * real_of_int a / real_of_int b)"
  using Math_round_percent [OF assms]
  by (simp add: agrees_up_to_tie_def js_round_percent_div [OF assms(2)]
        halfway_percent_iff [OF assms(2)])


section \<open>Facts about chartData\<close>

lemma totalHabits_max: "(if n = 0 then 1 else n) = max 1 (n::nat)"
  by auto

lemma chartData_Momentum:
  "map Momentum (chartData lib hs ls today)
     = map (\<lambda>i. Math_round (fmul (nearest_double
                (int (fullCount_on lib ls (today - int i) + partialCount_on lib ls (today - int i)))
                (int (max 1 (length hs)))) (num 100)))
         (rev [0..<30])"
  unfolding chartData_def fullCount_on_def partialCount_on_def totalHabits_max
  by (simp add: Let_def filter_filter fdiv_def num_def comp_def)

lemma chartData_part002_Momentum:
  "map Momentum (chartData_part002 lib hs ls today)
     = map (\<lambda>i. Math_round (fmul (nearest_double
                (int (2 * fullCount_on lib ls (today - int i) + partialCount_on lib ls (today - int i)))
                (2 * int (max 1 (length hs)))) (num 100)))
         (rev [0..<30])"
  unfolding chartData_part002_def fullCount_on_def partialCount_on_def totalHabits_max
  by (simp add: Let_def filter_filter fdiv_def num_def halves_def comp_def)

lemma chartData_rawDate:
  "map rawDate (chartData lib hs ls today) = map (\<lambda>i. format_ymd lib (today - int i)) (rev [0..<30])"
  unfolding chartData_def
  by (simp only: map_map comp_def Let_def ChartRow.simps)

lemma chartData_part002_rawDate:
  "map rawDate (chartData_part002 lib hs ls today) = map (\<lambda>i. format_ymd lib (today - int i)) (rev [0..<30])"
  unfolding chartData_part002_def
  by (simp only: map_map comp_def Let_def ChartRow.simps)

lemma counts_le_length:
  "fullCount_on lib ls d \<le> length ls" "partialCount_on lib ls d \<le> length ls"
  by (simp_all add: fullCount_on_def partialCount_on_def)

lemma equal_weight_agrees:
  assumes "length ls < 2 ^ 32"
  shows "agrees_up_to_tie
           (Math_round (fmul (nearest_double
              (int (fullCount_on lib ls d + partialCount_on lib ls d)) (int (max 1 (length hs))))
              (num 100)))
           (percent_equal_weight lib hs ls d)"
proof -
  let ?w = "fullCount_on lib ls d + partialCount_on lib ls d"
  have "?w \<le> 2 * length ls"
    using counts_le_length [of lib ls d] by linarith
  with assms have "?w < 2 * 2 ^ 32"
    by linarith
  then have "int ?w < 2 ^ 43"
    by simp
  moreover have "0 < int (max 1 (length hs))"
    by simp
  ultimately have "agrees_up_to_tie
      (Math_round (fmul (nearest_double (int ?w) (int (max 1 (length hs)))) (num 100)))
      (100 * real_of_int (int ?w) / real_of_int (int (max 1 (length hs))))"
    by (intro Math_round_percent_agrees) simp_all
  then show ?thesis
    by (simp add: percent_equal_weight_def)
qed

lemma half_weight_agrees:
  assumes "length ls < 2 ^ 32"
  shows "agrees_up_to_tie
           (Math_round (fmul (nearest_double
              (int (2 * fullCount_on lib ls d + partialCount_on lib ls d))
              (2 * int (max 1 (length hs)))) (num 100)))
           (percent_half_weight lib hs ls d)"
proof -
  let ?w = "2 * fullCount_on lib ls d + partialCount_on lib ls d"
  have "?w \<le> 3 * length ls"
    using counts_le_length [of lib ls d] by linarith
  with assms have "?w < 3 * 2 ^ 32"
    by linarith
  then have "int ?w < 2 ^ 43"
    by simp
  moreover have "0 < 2 * int (max 1 (length hs))"
    by simp
  ultimately have "agrees_up_to_tie
      (Math_round (fmul (nearest_double (int ?w) (2 * int (max 1 (length hs)))) (num 100)))
      (100 * real_of_int (int ?w) / real_of_int (2 * int (max 1 (length hs))))"
    by (intro Math_round_percent_agrees) simp_all
  moreover have "100 * real_of_int (int ?w) / real_of_int (2 * int (max 1 (length hs)))
                   = percent_half_weight lib hs ls d"
    by (simp add: percent_half_weight_def field_simps)
  ultimately show ?thesis
    by simp
qed

lemma list_all2_map_same: "(\<And>i. i \<in> set xs \<Longrightarrow> R (f i) i) \<Longrightarrow> list_all2 R (map f xs) xs"
  by (simp add: list_all2_map1 list_all2_same)

lemma last_window: "last (map f (rev [0..<30])) = f 0"
  by (simp add: last_map last_rev hd_upt)

lemma Momentum_today:
  "Momentum (last (chartData lib hs ls today))
     = Math_round (fmul (nearest_double
          (int (fullCount_on lib ls today + partialCount_on lib ls today))
          (int (max 1 (length hs)))) (num 100))"
proof -
  have ne: "chartData lib hs ls today \<noteq> []"
    by (simp add: chartData_def)
  have "Momentum (last (chartData lib hs ls today)) = last (map Momentum (chartData lib hs ls today))"
    using ne by (simp add: last_map)
  then show ?thesis
    by (simp only: chartData_Momentum last_window) simp
qed

lemma Momentum_today_part002:
  "Momentum (last (chartData_part002 lib hs ls today))
     = Math_round (fmul (nearest_double
          (int (2 * fullCount_on lib ls today + partialCount_on lib ls today))
          (2 * int (max 1 (length hs)))) (num 100))"
proof -
  have ne: "chartData_part002 lib hs ls today \<noteq> []"
    by (simp add: chartData_part002_def)
  have "Momentum (last (chartData_part002 lib hs ls today))
          = last (map Momentum (chartData_part002 lib hs ls today))"
    using ne by (simp add: last_map)
  then show ?thesis
    by (simp only: chartData_part002_Momentum last_window) simp
qed

lemmas dbl_eval = nearest_double_def binade_def binade_from_def round_at_def scale_num_def
  scale_den_def round_half_even_def num_def fdiv_def fmul_def Math_round_def compute_bitlen

lemma sample_full_counts:
  "fullCount_on dateFns (map (sample_full_log ''2024-03-01'') [0..<k]) 19783 = k"
  "partialCount_on dateFns (map (sample_full_log ''2024-03-01'') [0..<k]) 19783 = 0"
  by (simp_all add: fullCount_on_def partialCount_on_def filter_map comp_def sample_full_log_def
        format_2024_03_01)

lemma round_23_of_40: "Math_round (fmul (nearest_double 23 40) (num 100)) = 57"
  by (simp add: dbl_eval)

lemma round_1_of_2: "Math_round (fmul (nearest_double 1 2) (num 100)) = 50"
  by (simp add: dbl_eval)

text \<open>
  Claim C5, as the code has it. Both Dashboards produce one row for each of the trailing
  30 days, oldest first, from a log array (of a length below 2^32, as every array has).
  In the Dashboard of src/components/Journal.tsx the Momentum of a day is
  round(100 * (fullCount + partialCount) / max(1, number of habits)), full and partial
  weighing the same, whenever that quotient is not exactly halfway between two integers;
  when it is, the Momentum is that rounding or the integer below it. In the Dashboard of
  src/unnamed/part_002 the same holds with fullCount + partialCount / 2 for
  fullCount + partialCount: a partial log weighs half a full one.
\<close>

theorem chartData_momentum_weights:
  assumes "length ls < 2 ^ 32"
  shows
  "length (chartData lib hs ls today) = 30
   \<and> map rawDate (chartData lib hs ls today)
       = map (\<lambda>i. format_ymd lib (today - int i)) (rev [0..<30])
   \<and> list_all2 (\<lambda>m i. agrees_up_to_tie m (percent_equal_weight lib hs ls (today - int i)))
        (map Momentum (chartData lib hs ls today)) (rev [0..<30])
   \<and> length (chartData_part002 lib hs ls today) = 30
   \<and> map rawDate (chartData_part002 lib hs ls today)
       = map (\<lambda>i. format_ymd lib (today - int i)) (rev [0..<30])
   \<and> list_all2 (\<lambda>m i. agrees_up_to_tie m (percent_half_weight lib hs ls (today - int i)))
        (map Momentum (chartData_part002 lib hs ls today)) (rev [0..<30])"
proof (intro conjI)
  show "length (chartData lib hs ls today) = 30"
    by (simp add: chartData_def)
  show "length (chartData_part002 lib hs ls today) = 30"
    by (simp add: chartData_part002_def)
  show "map rawDate (chartData lib hs ls today)
       = map (\<lambda>i. format_ymd lib (today - int i)) (rev [0..<30])"
    by (rule chartData_rawDate)
  show "map rawDate (chartData_part002 lib hs ls today)
       = map (\<lambda>i. format_ymd lib (today - int i)) (rev [0..<30])"
    by (rule chartData_part002_rawDate)
  show "list_all2 (\<lambda>m i. agrees_up_to_tie m (percent_equal_weight lib hs ls (today - int i)))
        (map Momentum (chartData lib hs ls today)) (rev [0..<30])"
    unfolding chartData_Momentum
    by (rule list_all2_map_same) (rule equal_weight_agrees [OF assms])
  show "list_all2 (\<lambda>m i. agrees_up_to_tie m (percent_half_weight lib hs ls (today - int i)))
        (map Momentum (chartData_part002 lib hs ls today)) (rev [0..<30])"
    unfolding chartData_part002_Momentum
    by (rule list_all2_map_same) (rule half_weight_agrees [OF assms])
qed

lemma list_all2_last: "list_all2 R xs ys \<Longrightarrow> xs \<noteq> [] \<Longrightarrow> R (last xs) (last ys)"
proof (induction rule: list_all2_induct)
  case Nil
  then show ?case by simp
next
  case (Cons x xs y ys)
  then show ?case
    by (cases xs; cases ys) auto
qed

theorem chartData_momentum_weights_witness:
  "length [sample_full_log ''2024-03-01'' 0,
           \<lparr>date = ''2024-03-01'', habitId = ''01'', completed = False, partial = True\<rparr>] < 2 ^ 32
   \<and> \<not> halfway (percent_equal_weight dateFns [sample_habit 0, sample_habit 1, sample_habit 2]
          [sample_full_log ''2024-03-01'' 0,
           \<lparr>date = ''2024-03-01'', habitId = ''01'', completed = False, partial = True\<rparr>] 19783)
   \<and> Momentum (last (chartData dateFns [sample_habit 0, sample_habit 1, sample_habit 2]
          [sample_full_log ''2024-03-01'' 0,
           \<lparr>date = ''2024-03-01'', habitId = ''01'', completed = False, partial = True\<rparr>] 19783)) = 67"
proof -
  let ?hs = "[sample_habit 0, sample_habit 1, sample_habit 2]"
  let ?ls = "[sample_full_log ''2024-03-01'' 0,
           \<lparr>date = ''2024-03-01'', habitId = ''01'', completed = False, partial = True\<rparr>]"
  have len: "length ?ls < 2 ^ 32"
    by simp
  have pc: "percent_equal_weight dateFns ?hs ?ls 19783 = 200 / 3"
    by (simp add: percent_equal_weight_def fullCount_on_def partialCount_on_def
          sample_full_log_def format_2024_03_01)
  have nh: "\<not> halfway (percent_equal_weight dateFns ?hs ?ls 19783)"
    unfolding pc by (simp add: halfway_def frac_def)
  have ne: "map Momentum (chartData dateFns ?hs ?ls 19783) \<noteq> []"
    by (simp add: chartData_def)
  have "list_all2 (\<lambda>m i. agrees_up_to_tie m (percent_equal_weight dateFns ?hs ?ls (19783 - int i)))
          (map Momentum (chartData dateFns ?hs ?ls 19783)) (rev [0..<30])"
    using chartData_momentum_weights [OF len, of dateFns ?hs 19783] by blast
  then have "agrees_up_to_tie (last (map Momentum (chartData dateFns ?hs ?ls 19783)))
               (percent_equal_weight dateFns ?hs ?ls (19783 - int (last (rev [0..<30]))))"
    using ne by (rule list_all2_last)
  moreover have "last (rev [0..<30]) = 0"
    by (simp add: last_rev hd_upt)
  moreover have "last (map Momentum (chartData dateFns ?hs ?ls 19783))
                   = Momentum (last (chartData dateFns ?hs ?ls 19783))"
    using ne by (simp add: last_map)
  ultimately have "agrees_up_to_tie (Momentum (last (chartData dateFns ?hs ?ls 19783)))
                     (percent_equal_weight dateFns ?hs ?ls 19783)"
    by simp
  with nh have "Momentum (last (chartData dateFns ?hs ?ls 19783))
                  = js_round (percent_equal_weight dateFns ?hs ?ls 19783)"
    by (simp add: agrees_up_to_tie_def)
  then have "Momentum (last (chartData dateFns ?hs ?ls 19783)) = 67"
    unfolding pc by (simp add: js_round_def)
  with len nh show ?thesis
    by blast
qed

text \<open>
  The claim as worded fails twice. In the Dashboard of src/components/Journal.tsx, with 40
  habits and 23 full logs dated today, 23 / 40 is the double 0.575 and its product with
  100 is the double just below 57.5: the row of today has Momentum 57, and the claimed
  formula gives round(57.5) = 58. In the Dashboard of src/unnamed/part_002, with one habit
  and one partial log dated today, the row of today has Momentum 50, and the claimed
  formula gives 100.
\<close>

theorem chartData_momentum_counterexample:
  "Momentum (last (chartData dateFns (map sample_habit [0..<40])
      (map (sample_full_log ''2024-03-01'') [0..<23]) 19783)) = 57
   \<and> momentum_equal_weight dateFns (map sample_habit [0..<40])
      (map (sample_full_log ''2024-03-01'') [0..<23]) 19783 = 58
   \<and> Momentum (last (chartData_part002 dateFns [sample_habit 0]
      [\<lparr>date = ''2024-03-01'', habitId = ''00'', completed = False, partial = True\<rparr>] 19783)) = 50
   \<and> momentum_equal_weight dateFns [sample_habit 0]
      [\<lparr>date = ''2024-03-01'', habitId = ''00'', completed = False, partial = True\<rparr>] 19783 = 100"
proof (intro conjI)
  show "Momentum (last (chartData dateFns (map sample_habit [0..<40])
      (map (sample_full_log ''2024-03-01'') [0..<23]) 19783)) = 57"
    by (simp add: Momentum_today sample_full_counts round_23_of_40)
  show "momentum_equal_weight dateFns (map sample_habit [0..<40])
      (map (sample_full_log ''2024-03-01'') [0..<23]) 19783 = 58"
    by (simp add: momentum_equal_weight_def percent_equal_weight_def sample_full_counts js_round_def)
  have one: "fullCount_on dateFns
      [\<lparr>date = ''2024-03-01'', habitId = ''00'', completed = False, partial = True\<rparr>] 19783 = 0"
    "partialCount_on dateFns
      [\<lparr>date = ''2024-03-01'', habitId = ''00'', completed = False, partial = True\<rparr>] 19783 = 1"
    by (simp_all add: fullCount_on_def partialCount_on_def format_2024_03_01)
  show "Momentum (last (chartData_part002 dateFns [sample_habit 0]
      [\<lparr>date = ''2024-03-01'', habitId = ''00'', completed = False, partial = True\<rparr>] 19783)) = 50"
    by (simp add: Momentum_today_part002 one round_1_of_2)
  show "momentum_equal_weight dateFns [sample_habit 0]
      [\<lparr>date = ''2024-03-01'', habitId = ''00'', completed = False, partial = True\<rparr>] 19783 = 100"
    by (simp add: momentum_equal_weight_def percent_equal_weight_def one js_round_def)
qed

section \<open>Facts about heatmapPercentage\<close>




















end
